theory Spec2Isabelle
  imports Complex_Main "HOL-Library.Word" "HOL-Library.List_Lexorder" "HOL-Library.Char_ord"
begin

section \<open>AnchorRegistry: the on-chain registry (AnchorRegistry.sol)\<close>

text \<open>
  The contract has one storage variable, \<^verbatim>\<open>mapping(bytes32 => bool) public isAnchored\<close>
  (every key reads \<open>False\<close> until written), one event and one state-mutating function.
  A \<^verbatim>\<open>bytes32\<close> and a \<^verbatim>\<open>uint256\<close> are 256-bit words, an \<^verbatim>\<open>address\<close> is a 160-bit
  word. The ledger's view of the contract is its storage together with the events that
  confirmed transactions have emitted, oldest first.
\<close>

type_synonym bytes32 = "256 word"
type_synonym address = "160 word"
type_synonym uint256 = "256 word"

datatype event = Anchored bytes32 address uint256

record registry =
  isAnchored :: "bytes32 \<Rightarrow> bool"
  events :: "event list"

text \<open>What a call reads from its transaction: \<^verbatim>\<open>msg.sender\<close> and \<^verbatim>\<open>block.timestamp\<close>.\<close>

record tx_env =
  msg_sender :: address
  block_timestamp :: uint256

text \<open>The state right after deployment: no digest anchored, no event emitted.\<close>

definition deployed :: registry where
  "deployed = \<lparr>isAnchored = (\<lambda>_. False), events = []\<rparr>"

text \<open>
  \<^verbatim>\<open>require(cond, reason)\<close> either lets the body go on or reverts with
  \<^verbatim>\<open>Error(reason)\<close>; the reason string is the failure's name.
\<close>

definition require :: "bool \<Rightarrow> string \<Rightarrow> string + unit" where
  "require cond reason = (if cond then Inr () else Inl reason)"

text \<open>
  \<^verbatim>\<open>
  function anchor(bytes32 hash) external {
      require(hash != bytes32(0), "EMPTY_HASH");
      require(!isAnchored[hash], "ALREADY_ANCHORED");
      isAnchored[hash] = true;
      emit Anchored(hash, msg.sender, block.timestamp);
  }
  \<close>
  The body, statement by statement: \<open>Inl reason\<close> is a revert, \<open>Inr s'\<close> the state the
  body leaves when it runs to its end.
\<close>

definition anchor :: "tx_env \<Rightarrow> bytes32 \<Rightarrow> registry \<Rightarrow> string + registry" where
  "anchor env hash s =
     (case require (hash \<noteq> 0) ''EMPTY_HASH'' of
        Inl reason \<Rightarrow> Inl reason
      | Inr _ \<Rightarrow>
     (case require (\<not> isAnchored s hash) ''ALREADY_ANCHORED'' of
        Inl reason \<Rightarrow> Inl reason
      | Inr _ \<Rightarrow>
          Inr (s\<lparr>isAnchored := (isAnchored s)(hash := True),
                 events := events s @ [Anchored hash (msg_sender env) (block_timestamp env)]\<rparr>)))"

text \<open>
  The contract's externally callable surface (its ABI): \<^verbatim>\<open>anchor(bytes32)\<close>, which
  returns nothing, and the getter \<^verbatim>\<open>isAnchored(bytes32)\<close> of the public mapping, a
  \<^verbatim>\<open>view\<close> function. A call that reverts leaves the ledger as it was before the call:
  the EVM discards every storage write and event of a reverted call.
\<close>

datatype call = Anchor tx_env bytes32 | IsAnchored bytes32

datatype outcome = Reverted string | Returned | ReturnedBool bool

definition exec :: "call \<Rightarrow> registry \<Rightarrow> outcome \<times> registry" where
  "exec c s =
     (case c of
        Anchor env hash \<Rightarrow>
          (case anchor env hash s of
             Inl reason \<Rightarrow> (Reverted reason, s)
           | Inr s' \<Rightarrow> (Returned, s'))
      | IsAnchored hash \<Rightarrow> (ReturnedBool (isAnchored s hash), s))"

text \<open>
  A history of the contract: the calls the ledger has ordered, run one after the other.
  The result is each call with its outcome, and the final state.
\<close>

fun run :: "call list \<Rightarrow> registry \<Rightarrow> (call \<times> outcome) list \<times> registry" where
  "run [] s = ([], s)"
| "run (c # cs) s =
     (case exec c s of (out, s') \<Rightarrow>
        (case run cs s' of (tr, s'') \<Rightarrow> ((c, out) # tr, s'')))"

text \<open>Whether a trace holds a successful \<^verbatim>\<open>anchor(d)\<close>.\<close>

fun anchored_in :: "bytes32 \<Rightarrow> (call \<times> outcome) list \<Rightarrow> bool" where
  "anchored_in d [] = False"
| "anchored_in d ((Anchor env h, Returned) # tr) = (h = d \<or> anchored_in d tr)"
| "anchored_in d (_ # tr) = anchored_in d tr"

text \<open>The \<^verbatim>\<open>Anchored\<close> events of a log that carry the digest \<open>d\<close>.\<close>

definition events_for :: "bytes32 \<Rightarrow> event list \<Rightarrow> event list" where
  "events_for d evs = filter (\<lambda>ev. case ev of Anchored h _ _ \<Rightarrow> h = d) evs"

section \<open>JavaScript values and \<^verbatim>\<open>JSON.stringify\<close>\<close>

text \<open>
  The backend (Express, zod, better-sqlite3) and the browser client work on JavaScript
  values. A number is an IEEE double: \<open>NaN\<close>, an infinity, or a finite value, which is a
  rational (negative zero is not told apart from zero: nothing below can see the
  difference). An object is its own properties, each key once, in insertion order; a
  string is its sequence of bytes (UTF-8).
\<close>

datatype jsnum = NaN | PosInf | NegInf | Fin rat

datatype js =
    Undefined
  | Null
  | Bool bool
  | Num jsnum
  | Str string
  | Arr "js list"
  | Obj "(string \<times> js) list"

text \<open>The comparison \<^verbatim>\<open>a < b\<close> of two numbers: false as soon as one is \<open>NaN\<close>.\<close>

fun num_lt :: "jsnum \<Rightarrow> jsnum \<Rightarrow> bool" where
  "num_lt NaN _ = False"
| "num_lt _ NaN = False"
| "num_lt PosInf _ = False"
| "num_lt _ NegInf = False"
| "num_lt NegInf _ = True"
| "num_lt _ PosInf = True"
| "num_lt (Fin a) (Fin b) = (a < b)"

text \<open>Reading a property, \<^verbatim>\<open>obj[key]\<close>: \<^verbatim>\<open>undefined\<close> when the object has no such key.\<close>

definition get :: "(string \<times> js) list \<Rightarrow> string \<Rightarrow> js" where
  "get props key = (case map_of props key of None \<Rightarrow> Undefined | Some v \<Rightarrow> v)"

text \<open>
  What the code takes from its two runtimes (the browser and Node.js) and from zod
  without defining it: \<^verbatim>\<open>Number::toString\<close> on a finite number, the UTF-8 encoder
  (\<^verbatim>\<open>TextEncoder.encode\<close>, and Node's default encoding of a string given to a hash),
  SHA-256 on bytes (\<^verbatim>\<open>crypto.subtle.digest\<close>, \<^verbatim>\<open>crypto.createHash\<close>),
  \<^verbatim>\<open>JSON.parse\<close>, and zod's error map, which words an issue.
\<close>

datatype seg = Key string | Index nat

datatype zcode = invalid_type | too_small | too_big | invalid_string

datatype issue = Issue zcode "seg list"

record runtime =
  number_to_string :: "rat \<Rightarrow> string"
  utf8_encode :: "string \<Rightarrow> 8 word list"
  sha256 :: "8 word list \<Rightarrow> 8 word list"
  json_parse :: "string \<Rightarrow> js"
  issue_message :: "issue \<Rightarrow> string"

text \<open>The lowercase digit of a value below 16, as radix-16 printing and hex encoding use it.\<close>

definition hexdigit :: "nat \<Rightarrow> char" where
  "hexdigit n = (if n < 16 then ''0123456789abcdef'' ! n else CHR ''?'')"

text \<open>
  \<^verbatim>\<open>QuoteJSONString\<close>: the text between double quotes, with the double quote
  (\<open>0x22\<close>), the backslash (\<open>0x5C\<close>) and the control characters escaped.
\<close>

definition quote_char :: "char \<Rightarrow> string" where
  "quote_char c =
     (if c = CHR 0x22 then [CHR 0x5C, CHR 0x22]
      else if c = CHR 0x5C then [CHR 0x5C, CHR 0x5C]
      else if c = CHR 0x08 then [CHR 0x5C, CHR ''b'']
      else if c = CHR 0x09 then [CHR 0x5C, CHR ''t'']
      else if c = CHR 0x0A then [CHR 0x5C, CHR ''n'']
      else if c = CHR 0x0C then [CHR 0x5C, CHR ''f'']
      else if c = CHR 0x0D then [CHR 0x5C, CHR ''r'']
      else if (of_char c :: nat) < 32
        then [CHR 0x5C, CHR ''u'', CHR ''0'', CHR ''0'',
              hexdigit (of_char c div 16), hexdigit (of_char c mod 16)]
      else [c])"

definition QuoteJSONString :: "string \<Rightarrow> string" where
  "QuoteJSONString s = [CHR 0x22] @ concat (map quote_char s) @ [CHR 0x22]"

fun join :: "string \<Rightarrow> string list \<Rightarrow> string" where
  "join sep [] = []"
| "join sep [x] = x"
| "join sep (x # y # ys) = x @ sep @ join sep (y # ys)"

text \<open>
  \<^verbatim>\<open>JSON.stringify\<close> without a replacer or indentation, on the values above
  (\<^verbatim>\<open>SerializeJSONProperty\<close> of the language standard). A value with no JSON text
  (\<^verbatim>\<open>undefined\<close>) yields \<open>None\<close>: an array prints it as \<^verbatim>\<open>null\<close>, an object leaves
  the property out. A number that is not finite prints as \<^verbatim>\<open>null\<close>.
\<close>

definition array_text :: "string option list \<Rightarrow> string" where
  "array_text items =
     ''['' @ join '','' (map (\<lambda>r. case r of None \<Rightarrow> ''null'' | Some t \<Rightarrow> t) items) @ '']''"

definition object_text :: "(string \<times> string option) list \<Rightarrow> string" where
  "object_text props =
     ''{'' @ join '',''
        (concat (map (\<lambda>(k, r). case r of None \<Rightarrow> []
                                 | Some t \<Rightarrow> [QuoteJSONString k @ '':'' @ t]) props))
      @ ''}''"

primrec SerializeJSONProperty :: "(rat \<Rightarrow> string) \<Rightarrow> js \<Rightarrow> string option" where
  "SerializeJSONProperty nts Undefined = None"
| "SerializeJSONProperty nts Null = Some ''null''"
| "SerializeJSONProperty nts (Bool b) = Some (if b then ''true'' else ''false'')"
| "SerializeJSONProperty nts (Num n) = Some (case n of Fin q \<Rightarrow> nts q | _ \<Rightarrow> ''null'')"
| "SerializeJSONProperty nts (Str s) = Some (QuoteJSONString s)"
| "SerializeJSONProperty nts (Arr xs) = Some (array_text (map (SerializeJSONProperty nts) xs))"
| "SerializeJSONProperty nts (Obj ps) =
     Some (object_text (map (map_prod id (SerializeJSONProperty nts)) ps))"

text \<open>\<^verbatim>\<open>JSON.stringify\<close> of an object literal and of an array: always a string.\<close>

definition JSON_stringify_object :: "runtime \<Rightarrow> (string \<times> js) list \<Rightarrow> string" where
  "JSON_stringify_object R ps =
     object_text (map (map_prod id (SerializeJSONProperty (number_to_string R))) ps)"

definition JSON_stringify_array :: "runtime \<Rightarrow> js list \<Rightarrow> string" where
  "JSON_stringify_array R xs = array_text (map (SerializeJSONProperty (number_to_string R)) xs)"

text \<open>
  \<^verbatim>\<open>String.prototype.toLowerCase\<close>. Both strings the backend lowers are ASCII (a
  digest it has just printed, and a string that matched the digest pattern), so only the
  ASCII letters are mapped.
\<close>

definition lower_char :: "char \<Rightarrow> char" where
  "lower_char c =
     (case map_of (zip ''ABCDEFGHIJKLMNOPQRSTUVWXYZ'' ''abcdefghijklmnopqrstuvwxyz'') c of
        None \<Rightarrow> c
      | Some l \<Rightarrow> l)"

definition toLowerCase :: "string \<Rightarrow> string" where
  "toLowerCase s = map lower_char s"

section \<open>Hash derivation\<close>

text \<open>
  The backend (index.ts):
  \<^verbatim>\<open>
  function sha256Hex(input: string) {
    return '0x' + crypto.createHash('sha256').update(input).digest('hex');
  }
  \<close>
  \<^verbatim>\<open>digest('hex')\<close> prints every byte as two lowercase hexadecimal digits.
\<close>

definition digest_hex :: "8 word list \<Rightarrow> string" where
  "digest_hex bytes =
     concat (map (\<lambda>b. [hexdigit (unat b div 16), hexdigit (unat b mod 16)]) bytes)"

definition sha256Hex :: "runtime \<Rightarrow> string \<Rightarrow> string" where
  "sha256Hex R input = ''0x'' @ digest_hex (sha256 R (utf8_encode R input))"

text \<open>
  The client (App.tsx):
  \<^verbatim>\<open>
  async function sha256Hex(text: string): Promise<string> {
    const enc = new TextEncoder();
    const data = enc.encode(text);
    const digest = await crypto.subtle.digest('SHA-256', data);
    const bytes = Array.from(new Uint8Array(digest));
    const hex = bytes.map((b) => b.toString(16).padStart(2, '0')).join('');
    return `0x${hex}`;
  }
  \<close>
  \<^verbatim>\<open>b.toString(16)\<close> prints an integer in radix 16 without leading zeros;
  \<^verbatim>\<open>padStart(2, '0')\<close> fills a shorter string up to two characters from the left.
\<close>

fun toString16 :: "nat \<Rightarrow> string" where
  "toString16 n =
     (if n < 16 then [hexdigit n] else toString16 (n div 16) @ [hexdigit (n mod 16)])"

definition padStart :: "nat \<Rightarrow> char \<Rightarrow> string \<Rightarrow> string" where
  "padStart targetLength c s = replicate (targetLength - length s) c @ s"

definition sha256Hex_client :: "runtime \<Rightarrow> string \<Rightarrow> string" where
  "sha256Hex_client R text =
     (let data = utf8_encode R text;
          digest = sha256 R data;
          hex = concat (map (\<lambda>b. padStart 2 (CHR ''0'') (toString16 (unat b))) digest)
      in ''0x'' @ hex)"

text \<open>
  The client's canonical form of its form state (App.tsx):
  \<^verbatim>\<open>
  const canonical = useMemo(() => {
    return JSON.stringify({ lat, lng, timestamp, features });
  }, [lat, lng, timestamp, features]);
  \<close>
  The features are the objects the form holds; a confidence the user has cleared is a
  property whose value is \<^verbatim>\<open>undefined\<close>.
\<close>

definition canonical_client :: "runtime \<Rightarrow> jsnum \<Rightarrow> jsnum \<Rightarrow> string \<Rightarrow> js list \<Rightarrow> string" where
  "canonical_client R la lo ts fs =
     JSON_stringify_object R
       [(''lat'', Num la), (''lng'', Num lo), (''timestamp'', Str ts), (''features'', Arr fs)]"

text \<open>
  The way from the form to the server (App.tsx, \<^verbatim>\<open>submitObservation\<close>):
  \<^verbatim>\<open>
  body: JSON.stringify({ lat, lng, timestamp, features, hashHex })
  \<close>
  and \<^verbatim>\<open>express.json\<close> parses the text again. \<open>wire\<close> is what \<^verbatim>\<open>JSON.parse\<close> reads back
  from the text \<^verbatim>\<open>JSON.stringify\<close> wrote: a property whose value is \<^verbatim>\<open>undefined\<close> is
  gone, \<^verbatim>\<open>undefined\<close> in an array and a number that is not finite have become
  \<^verbatim>\<open>null\<close>, and every finite number and every string is read back as it was.

  The features of the form are objects with the keys \<^verbatim>\<open>type\<close> and \<^verbatim>\<open>confidence\<close>, in
  this order: the initial state and \<^verbatim>\<open>addFeature\<close> write them so, and
  \<^verbatim>\<open>updateFeature\<close> replaces a value in place (\<^verbatim>\<open>{ ...f, ...patch }\<close>), where a cleared
  confidence is \<^verbatim>\<open>undefined\<close>.
\<close>

primrec wire :: "js \<Rightarrow> js" where
  "wire Undefined = Undefined"
| "wire Null = Null"
| "wire (Bool b) = Bool b"
| "wire (Num n) = (case n of Fin q \<Rightarrow> Num (Fin q) | _ \<Rightarrow> Null)"
| "wire (Str s) = Str s"
| "wire (Arr xs) = Arr (map (\<lambda>w. if w = Undefined then Null else w) (map wire xs))"
| "wire (Obj ps) = Obj (filter (\<lambda>p. snd p \<noteq> Undefined) (map (map_prod id wire) ps))"

definition form_feature :: "string \<times> jsnum option \<Rightarrow> js" where
  "form_feature f =
     Obj [(''type'', Str (fst f)),
          (''confidence'', case snd f of None \<Rightarrow> Undefined | Some n \<Rightarrow> Num n)]"

definition submitted_body :: "jsnum \<Rightarrow> jsnum \<Rightarrow> string \<Rightarrow> js list \<Rightarrow> string \<Rightarrow> js" where
  "submitted_body la lo ts fs h =
     wire (Obj [(''lat'', Num la), (''lng'', Num lo), (''timestamp'', Str ts),
                (''features'', Arr fs), (''hashHex'', Str h)])"

section \<open>Shape validation: the zod schemas (index.ts)\<close>

text \<open>
  \<^verbatim>\<open>
  const FeatureSchema = z.object({
    type: z.string(),
    confidence: z.number().min(0).max(1).optional(),
    bbox: z.tuple([z.number(), z.number(), z.number(), z.number()]).optional()
  });
  const ObservationSchema = z.object({
    lat: z.number(),
    lng: z.number(),
    timestamp: z.string(),
    features: z.array(FeatureSchema).default([]),
    hashHex: z.string().regex(/^0x[0-9a-fA-F]{64}$/)
  });
  \<close>
  Parsing a value against a schema gives the typed data, or the list of issues; an issue
  has a code and the path of the offending value. An object schema reads its own keys
  in their order, drops every other key, and gathers the issues of all of them.
  \<^verbatim>\<open>z.number()\<close> takes every number but \<open>NaN\<close>; \<^verbatim>\<open>optional()\<close> takes
  \<^verbatim>\<open>undefined\<close> (an absent key reads as \<^verbatim>\<open>undefined\<close>); \<^verbatim>\<open>default([])\<close> turns
  \<^verbatim>\<open>undefined\<close> into the empty array.
\<close>

record Feature =
  type :: string
  confidence :: "jsnum option"
  bbox :: "(jsnum \<times> jsnum \<times> jsnum \<times> jsnum) option"

record ObservationInput =
  lat :: jsnum
  lng :: jsnum
  timestamp :: string
  features :: "Feature list"
  hashHex :: string

definition issues_of :: "issue list + 'a \<Rightarrow> issue list" where
  "issues_of r = (case r of Inl is \<Rightarrow> is | Inr _ \<Rightarrow> [])"

definition z_number :: "seg list \<Rightarrow> js \<Rightarrow> issue list + jsnum" where
  "z_number p v =
     (case v of
        Num n \<Rightarrow> if n = NaN then Inl [Issue invalid_type p] else Inr n
      | _ \<Rightarrow> Inl [Issue invalid_type p])"

definition z_string :: "seg list \<Rightarrow> js \<Rightarrow> issue list + string" where
  "z_string p v = (case v of Str s \<Rightarrow> Inr s | _ \<Rightarrow> Inl [Issue invalid_type p])"

text \<open>\<^verbatim>\<open>z.number().min(0).max(1).optional()\<close>: both bounds are inclusive.\<close>

definition z_confidence :: "seg list \<Rightarrow> js \<Rightarrow> issue list + jsnum option" where
  "z_confidence p v =
     (if v = Undefined then Inr None
      else case z_number p v of
        Inl is \<Rightarrow> Inl is
      | Inr n \<Rightarrow>
          (let is = (if num_lt n (Fin 0) then [Issue too_small p] else []) @
                    (if num_lt (Fin 1) n then [Issue too_big p] else [])
           in if is = [] then Inr (Some n) else Inl is))"

text \<open>
  \<^verbatim>\<open>z.tuple([...]).optional()\<close>: an array of exactly four numbers. A shorter array is
  refused at once; a longer one is refused after its first four items have been checked.
\<close>

definition z_bbox ::
  "seg list \<Rightarrow> js \<Rightarrow> issue list + (jsnum \<times> jsnum \<times> jsnum \<times> jsnum) option" where
  "z_bbox p v =
     (if v = Undefined then Inr None
      else case v of
        Arr xs \<Rightarrow>
          (if length xs < 4 then Inl [Issue too_small p]
           else
             (case (z_number (p @ [Index 0]) (xs ! 0), z_number (p @ [Index 1]) (xs ! 1),
                    z_number (p @ [Index 2]) (xs ! 2), z_number (p @ [Index 3]) (xs ! 3)) of
                (Inr a, Inr b, Inr c, Inr d) \<Rightarrow>
                  if length xs > 4 then Inl [Issue too_big p] else Inr (Some (a, b, c, d))
              | (ra, rb, rc, rd) \<Rightarrow>
                  Inl ((if length xs > 4 then [Issue too_big p] else []) @
                       issues_of ra @ issues_of rb @ issues_of rc @ issues_of rd)))
      | _ \<Rightarrow> Inl [Issue invalid_type p])"

definition FeatureSchema :: "seg list \<Rightarrow> js \<Rightarrow> issue list + Feature" where
  "FeatureSchema p v =
     (case v of
        Obj props \<Rightarrow>
          (case (z_string (p @ [Key ''type'']) (get props ''type''),
                 z_confidence (p @ [Key ''confidence'']) (get props ''confidence''),
                 z_bbox (p @ [Key ''bbox'']) (get props ''bbox'')) of
             (Inr t, Inr c, Inr b) \<Rightarrow> Inr \<lparr>type = t, confidence = c, bbox = b\<rparr>
           | (rt, rc, rb) \<Rightarrow> Inl (issues_of rt @ issues_of rc @ issues_of rb))
      | _ \<Rightarrow> Inl [Issue invalid_type p])"

fun z_array_items :: "seg list \<Rightarrow> nat \<Rightarrow> js list \<Rightarrow> issue list + Feature list" where
  "z_array_items p i [] = Inr []"
| "z_array_items p i (x # xs) =
     (case (FeatureSchema (p @ [Index i]) x, z_array_items p (Suc i) xs) of
        (Inr f, Inr fs) \<Rightarrow> Inr (f # fs)
      | (rf, rfs) \<Rightarrow> Inl (issues_of rf @ issues_of rfs))"

definition z_features :: "seg list \<Rightarrow> js \<Rightarrow> issue list + Feature list" where
  "z_features p v =
     (if v = Undefined then Inr []
      else case v of
        Arr xs \<Rightarrow> z_array_items p 0 xs
      | _ \<Rightarrow> Inl [Issue invalid_type p])"

text \<open>
  The pattern \<^verbatim>\<open>/^0x[0-9a-fA-F]{64}$/\<close>: the two characters \<^verbatim>\<open>0x\<close>, then exactly 64
  hexadecimal digits of either case, and nothing else (without the \<^verbatim>\<open>m\<close> flag,
  \<^verbatim>\<open>$\<close> matches at the end of the string only).
\<close>

definition is_hex :: "char \<Rightarrow> bool" where
  "is_hex c = (c \<in> set ''0123456789abcdefABCDEF'')"

definition matches_hash_pattern :: "string \<Rightarrow> bool" where
  "matches_hash_pattern s =
     (case s of
        c0 # c1 # rest \<Rightarrow>
          c0 = CHR ''0'' \<and> c1 = CHR ''x'' \<and> length rest = 64 \<and> list_all is_hex rest
      | _ \<Rightarrow> False)"

definition z_hashHex :: "seg list \<Rightarrow> js \<Rightarrow> issue list + string" where
  "z_hashHex p v =
     (case z_string p v of
        Inl is \<Rightarrow> Inl is
      | Inr s \<Rightarrow> if matches_hash_pattern s then Inr s else Inl [Issue invalid_string p])"

definition ObservationSchema_safeParse :: "js \<Rightarrow> issue list + ObservationInput" where
  "ObservationSchema_safeParse body =
     (case body of
        Obj props \<Rightarrow>
          (case (z_number [Key ''lat''] (get props ''lat''),
                 z_number [Key ''lng''] (get props ''lng''),
                 z_string [Key ''timestamp''] (get props ''timestamp''),
                 z_features [Key ''features''] (get props ''features''),
                 z_hashHex [Key ''hashHex''] (get props ''hashHex'')) of
             (Inr la, Inr lo, Inr ts, Inr fs, Inr h) \<Rightarrow>
               Inr \<lparr>lat = la, lng = lo, timestamp = ts, features = fs, hashHex = h\<rparr>
           | (r1, r2, r3, r4, r5) \<Rightarrow>
               Inl (issues_of r1 @ issues_of r2 @ issues_of r3 @ issues_of r4 @ issues_of r5))
      | _ \<Rightarrow> Inl [Issue invalid_type []])"

text \<open>
  \<^verbatim>\<open>parsed.error.flatten()\<close>: the messages of the issues with an empty path under
  \<^verbatim>\<open>formErrors\<close>, the other messages under \<^verbatim>\<open>fieldErrors\<close>, grouped by the first
  segment of their path.
\<close>

fun show_nat :: "nat \<Rightarrow> string" where
  "show_nat n = (if n < 10 then [hexdigit n] else show_nat (n div 10) @ [hexdigit (n mod 10)])"

fun seg_key :: "seg \<Rightarrow> string" where
  "seg_key (Key k) = k"
| "seg_key (Index i) = show_nat i"

fun issue_path :: "issue \<Rightarrow> seg list" where
  "issue_path (Issue c p) = p"

fun add_field_error ::
  "string \<Rightarrow> string \<Rightarrow> (string \<times> string list) list \<Rightarrow> (string \<times> string list) list" where
  "add_field_error k m [] = [(k, [m])]"
| "add_field_error k m ((k', ms) # rest) =
     (if k = k' then (k', ms @ [m]) # rest else (k', ms) # add_field_error k m rest)"

fun field_errors ::
  "(issue \<Rightarrow> string) \<Rightarrow> issue list \<Rightarrow> (string \<times> string list) list \<Rightarrow>
   (string \<times> string list) list" where
  "field_errors msg [] acc = acc"
| "field_errors msg (i # is) acc =
     (case issue_path i of
        [] \<Rightarrow> field_errors msg is acc
      | s # _ \<Rightarrow> field_errors msg is (add_field_error (seg_key s) (msg i) acc))"

definition flatten :: "runtime \<Rightarrow> issue list \<Rightarrow> js" where
  "flatten R is =
     Obj [(''formErrors'',
             Arr (map (\<lambda>i. Str (issue_message R i)) (filter (\<lambda>i. issue_path i = []) is))),
          (''fieldErrors'',
             Obj (map (\<lambda>(k, ms). (k, Arr (map Str ms)))
                    (field_errors (issue_message R) is [])))]"

section \<open>The observation store (db.ts) and the two routes (index.ts)\<close>

text \<open>
  \<^verbatim>\<open>
  CREATE TABLE IF NOT EXISTS observations (
    id TEXT PRIMARY KEY, created_at TEXT NOT NULL, lat REAL NOT NULL, lng REAL NOT NULL,
    timestamp TEXT NOT NULL, features_json TEXT NOT NULL, hash_hex TEXT NOT NULL);
  \<close>
  The table is the list of its rows, oldest insertion first. An insertion fails (the
  statement throws) when the id is already a key of the table, or when a \<^verbatim>\<open>REAL\<close> column
  would hold \<open>NaN\<close>, which SQLite stores as \<^verbatim>\<open>NULL\<close>.
\<close>

record Observation =
  row_id :: string
  created_at :: string
  row_lat :: jsnum
  row_lng :: jsnum
  row_timestamp :: string
  features_json :: string
  hash_hex :: string

type_synonym db = "Observation list"

definition insert_observation :: "Observation \<Rightarrow> db \<Rightarrow> unit + db" where
  "insert_observation r rows =
     (if row_id r \<in> set (map row_id rows) \<or> row_lat r = NaN \<or> row_lng r = NaN
      then Inl ()
      else Inr (rows @ [r]))"

text \<open>
  What a route sends: \<^verbatim>\<open>res.status(n).json(v)\<close> (\<^verbatim>\<open>res.json(v)\<close> has status 200),
  or nothing of its own when a statement throws, in which case Express answers with
  status 500.
\<close>

datatype response = Json nat js | Threw

text \<open>
  The object a parsed feature is (zod builds it key by key in the schema's order and
  leaves out an optional key that was absent), and the server's canonical form
  \<^verbatim>\<open>JSON.stringify({ lat, lng, timestamp, features })\<close> of the parsed data.
\<close>

definition Feature_js :: "Feature \<Rightarrow> js" where
  "Feature_js f =
     Obj ([(''type'', Str (type f))] @
          (case confidence f of None \<Rightarrow> [] | Some c \<Rightarrow> [(''confidence'', Num c)]) @
          (case bbox f of
             None \<Rightarrow> []
           | Some (a, b, c, d) \<Rightarrow> [(''bbox'', Arr [Num a, Num b, Num c, Num d])]))"

definition canonical :: "runtime \<Rightarrow> ObservationInput \<Rightarrow> string" where
  "canonical R d =
     JSON_stringify_object R
       [(''lat'', Num (lat d)), (''lng'', Num (lng d)), (''timestamp'', Str (timestamp d)),
        (''features'', Arr (map Feature_js (features d)))]"

text \<open>
  \<^verbatim>\<open>
  app.post('/api/observations', (req, res) => {
    const parsed = ObservationSchema.safeParse(req.body);
    if (!parsed.success) {
      return res.status(400).json({ ok: false, error: parsed.error.flatten() });
    }
    const { lat, lng, timestamp, features, hashHex } = parsed.data;
    const canonical = JSON.stringify({ lat, lng, timestamp, features });
    const expected = sha256Hex(canonical);
    if (expected.toLowerCase() !== hashHex.toLowerCase()) {
      return res.status(400).json({ ok: false,
        error: 'Hash mismatch (server recomputed a different value).' });
    }
    const id = crypto.randomUUID();
    const createdAt = new Date().toISOString();
    const stmt = db.prepare(`INSERT INTO observations (...) VALUES (...)`);
    stmt.run({ id, created_at: createdAt, lat, lng, timestamp,
               features_json: JSON.stringify(features), hash_hex: hashHex });
    res.json({ ok: true, id, createdAt, hashHex });
  });
  \<close>
  The request body is the value \<^verbatim>\<open>express.json\<close> has parsed; the fresh identifier and
  the clock's reading are inputs of the request. The route returns its response and the
  table after the request.
\<close>

definition post_observations ::
  "runtime \<Rightarrow> string \<Rightarrow> string \<Rightarrow> js \<Rightarrow> db \<Rightarrow> response \<times> db" where
  "post_observations R uuid now body rows =
     (case ObservationSchema_safeParse body of
        Inl is \<Rightarrow>
          (Json 400 (Obj [(''ok'', Bool False), (''error'', flatten R is)]), rows)
      | Inr d \<Rightarrow>
          (let expected = sha256Hex R (canonical R d) in
           if toLowerCase expected \<noteq> toLowerCase (hashHex d)
           then (Json 400 (Obj [(''ok'', Bool False),
                   (''error'', Str ''Hash mismatch (server recomputed a different value).'')]),
                 rows)
           else
             (case insert_observation
                     \<lparr>row_id = uuid, created_at = now, row_lat = lat d, row_lng = lng d,
                      row_timestamp = timestamp d,
                      features_json = JSON_stringify_array R (map Feature_js (features d)),
                      hash_hex = hashHex d\<rparr> rows of
                Inl _ \<Rightarrow> (Threw, rows)
              | Inr rows' \<Rightarrow>
                  (Json 200 (Obj [(''ok'', Bool True), (''id'', Str uuid),
                                  (''createdAt'', Str now), (''hashHex'', Str (hashHex d))]),
                   rows'))))"

text \<open>
  \<^verbatim>\<open>
  app.get('/api/observations', (req, res) => {
    const limit = Math.min(Number(req.query.limit || 50), 200);
    const rows = db.prepare(`SELECT ... FROM observations
                             ORDER BY created_at DESC LIMIT ?`).all(limit);
    const out = rows.map((r: any) => ({ id: r.id, createdAt: r.created_at, lat: r.lat,
      lng: r.lng, timestamp: r.timestamp, features: JSON.parse(r.features_json),
      hashHex: r.hash_hex }));
    res.json({ ok: true, observations: out });
  });
  \<close>
  The query parameter is a string. An absent or empty one is falsy and gives 50; any
  other one is turned into a number by \<^verbatim>\<open>Number\<close> (\<open>NaN\<close> when it is not numeric). The
  model takes the parameter as that number, \<open>None\<close> for the absent or empty string.

  \<^verbatim>\<open>Math.min\<close> is \<open>NaN\<close> as soon as one argument is. \<^verbatim>\<open>ORDER BY created_at DESC\<close>
  compares the texts byte by byte; SQL leaves the order of equal keys open, and the model
  takes the reverse of the stable ascending sort. \<^verbatim>\<open>LIMIT ?\<close> as SQLite defines it: a
  value that is not a 64-bit integer (or cannot be turned into one without loss) is a
  datatype mismatch, which makes the statement throw; a negative value means no upper
  bound; any other value bounds the number of rows.
\<close>

definition Math_min :: "jsnum \<Rightarrow> jsnum \<Rightarrow> jsnum" where
  "Math_min a b = (if a = NaN \<or> b = NaN then NaN else if num_lt b a then b else a)"

definition order_by_created_at_desc :: "db \<Rightarrow> db" where
  "order_by_created_at_desc rows = rev (sort_key created_at rows)"

definition sqlite_limit :: "jsnum \<Rightarrow> 'a list \<Rightarrow> unit + 'a list" where
  "sqlite_limit n rows =
     (case n of
        Fin q \<Rightarrow>
          if q = of_int \<lfloor>q\<rfloor> \<and> - (2 ^ 63) < q \<and> q < 2 ^ 63
          then (if q < 0 then Inr rows else Inr (take (nat \<lfloor>q\<rfloor>) rows))
          else Inl ()
      | _ \<Rightarrow> Inl ())"

definition observation_out :: "runtime \<Rightarrow> Observation \<Rightarrow> js" where
  "observation_out R r =
     Obj [(''id'', Str (row_id r)), (''createdAt'', Str (created_at r)),
          (''lat'', Num (row_lat r)), (''lng'', Num (row_lng r)),
          (''timestamp'', Str (row_timestamp r)),
          (''features'', json_parse R (features_json r)),
          (''hashHex'', Str (hash_hex r))]"

definition get_observations :: "runtime \<Rightarrow> jsnum option \<Rightarrow> db \<Rightarrow> response" where
  "get_observations R requested rows =
     (let limit = Math_min (case requested of None \<Rightarrow> Fin 50 | Some n \<Rightarrow> n) (Fin 200) in
      case sqlite_limit limit (order_by_created_at_desc rows) of
        Inl _ \<Rightarrow> Threw
      | Inr selected \<Rightarrow>
          Json 200 (Obj [(''ok'', Bool True),
                         (''observations'', Arr (map (observation_out R) selected))]))"

text \<open>The records a listing returns: the array under \<^verbatim>\<open>observations\<close> of its body.\<close>

definition observations_of :: "response \<Rightarrow> js list" where
  "observations_of r =
     (case r of
        Json _ (Obj props) \<Rightarrow> (case get props ''observations'' of Arr xs \<Rightarrow> xs | _ \<Rightarrow> [])
      | _ \<Rightarrow> [])"

section \<open>A runtime and requests to compute with\<close>

text \<open>
  The statements below hold for every runtime. To evaluate the routes on concrete
  requests, \<open>demo_runtime\<close> fixes one whose functions can be computed by hand: it prints
  the three numbers of the worked example as JavaScript does, encodes a string byte by
  byte, and its digest is 32 bytes \<open>0xAB\<close> whatever the input.
\<close>

definition demo_runtime :: runtime where
  "demo_runtime =
     \<lparr>number_to_string =
        (\<lambda>q. if q = 10.762622 then ''10.762622''
             else if q = 106.660172 then ''106.660172''
             else if q = 0.87 then ''0.87'' else ''0''),
      utf8_encode = map (\<lambda>c. of_nat (of_char c)),
      sha256 = (\<lambda>bytes. replicate 32 0xAB),
      json_parse = (\<lambda>text. Null),
      issue_message = (\<lambda>i. ''Invalid'')\<rparr>"

text \<open>
  The worked example, with the digest of \<open>demo_runtime\<close> claimed in lowercase, in
  uppercase, and with a digest that is not the recomputed one.
\<close>

definition example_fields :: "(string \<times> js) list" where
  "example_fields =
     [(''lat'', Num (Fin 10.762622)), (''lng'', Num (Fin 106.660172)),
      (''timestamp'', Str ''2024-01-01T00:00:00.000Z''),
      (''features'', Arr [Obj [(''type'', Str ''pothole''), (''confidence'', Num (Fin 0.87))]])]"

definition body_lower :: js where
  "body_lower = Obj (example_fields @ [(''hashHex'', Str (''0x'' @ concat (replicate 32 ''ab'')))])"

definition body_upper :: js where
  "body_upper = Obj (example_fields @ [(''hashHex'', Str (''0x'' @ concat (replicate 32 ''AB'')))])"

definition body_mismatch :: js where
  "body_mismatch = Obj (example_fields @ [(''hashHex'', Str (''0x'' @ concat (replicate 32 ''00'')))])"

definition example_data :: ObservationInput where
  "example_data =
     \<lparr>lat = Fin 10.762622, lng = Fin 106.660172, timestamp = ''2024-01-01T00:00:00.000Z'',
      features = [\<lparr>type = ''pothole'', confidence = Some (Fin 0.87), bbox = None\<rparr>],
      hashHex = ''0x'' @ concat (replicate 32 ''ab'')\<rparr>"

text \<open>The two digit-printing loops are unfolded by hand, one step at a time.\<close>

declare toString16.simps [simp del] show_nat.simps [simp del]

section \<open>Properties of the registry\<close>

lemma anchor_zero: "anchor env 0 s = Inl ''EMPTY_HASH''"
  by (simp add: anchor_def require_def)

lemma anchor_already:
  "hash \<noteq> 0 \<Longrightarrow> isAnchored s hash \<Longrightarrow> anchor env hash s = Inl ''ALREADY_ANCHORED''"
  by (simp add: anchor_def require_def)

lemma anchor_fresh:
  "hash \<noteq> 0 \<Longrightarrow> \<not> isAnchored s hash \<Longrightarrow>
   anchor env hash s =
     Inr (s\<lparr>isAnchored := (isAnchored s)(hash := True),
            events := events s @ [Anchored hash (msg_sender env) (block_timestamp env)]\<rparr>)"
  by (simp add: anchor_def require_def)

lemma anchor_Inl_cases:
  "anchor env hash s = Inl reason \<Longrightarrow>
   (hash = 0 \<and> reason = ''EMPTY_HASH'') \<or>
   (hash \<noteq> 0 \<and> isAnchored s hash \<and> reason = ''ALREADY_ANCHORED'')"
  by (auto simp: anchor_def require_def split: if_splits)

lemma anchor_Inr_cases:
  "anchor env hash s = Inr s' \<Longrightarrow>
   hash \<noteq> 0 \<and> \<not> isAnchored s hash \<and>
   s' = s\<lparr>isAnchored := (isAnchored s)(hash := True),
          events := events s @ [Anchored hash (msg_sender env) (block_timestamp env)]\<rparr>"
  by (auto simp: anchor_def require_def split: if_splits)

lemma exec_keeps_flag: "isAnchored s d \<Longrightarrow> isAnchored (snd (exec c s)) d"
  by (cases c) (auto simp: exec_def dest: anchor_Inr_cases split: sum.splits)

lemma snd_run_Cons: "snd (run (c # cs) s) = snd (run cs (snd (exec c s)))"
  by (simp split: prod.splits)

lemma run_keeps_flag: "isAnchored s d \<Longrightarrow> isAnchored (snd (run cs s)) d"
proof (induction cs arbitrary: s)
  case Nil
  then show ?case by simp
next
  case (Cons c cs)
  from Cons.prems have "isAnchored (snd (exec c s)) d"
    by (rule exec_keeps_flag)
  then have "isAnchored (snd (run cs (snd (exec c s)))) d"
    by (rule Cons.IH)
  then show ?case
    by (simp only: snd_run_Cons)
qed

lemma run_flag_iff:
  "isAnchored (snd (run cs s)) d = (isAnchored s d \<or> anchored_in d (fst (run cs s)))"
proof (induction cs arbitrary: s)
  case Nil
  then show ?case by simp
next
  case (Cons c cs)
  obtain out s' where e: "exec c s = (out, s')"
    by (cases "exec c s")
  obtain tr s'' where r: "run cs s' = (tr, s'')"
    by (cases "run cs s'")
  have ih: "isAnchored s'' d = (isAnchored s' d \<or> anchored_in d tr)"
    using Cons.IH [of s'] r by simp
  have step: "(isAnchored s' d \<or> anchored_in d tr) =
              (isAnchored s d \<or> anchored_in d ((c, out) # tr))"
  proof (cases c)
    case (Anchor env h)
    show ?thesis
    proof (cases "anchor env h s")
      case (Inl reason)
      with Anchor e have "out = Reverted reason" "s' = s"
        by (auto simp: exec_def)
      with Anchor show ?thesis by simp
    next
      case (Inr t)
      with Anchor e have o: "out = Returned" "s' = t"
        by (auto simp: exec_def)
      from anchor_Inr_cases [OF Inr] have
        "isAnchored t d = (d = h \<or> isAnchored s d)"
        by auto
      with Anchor o show ?thesis by auto
    qed
  next
    case (IsAnchored h)
    with e have "out = ReturnedBool (isAnchored s h)" "s' = s"
      by (auto simp: exec_def)
    with IsAnchored show ?thesis by simp
  qed
  show ?case
    using e r ih step by simp
qed

lemma run_append:
  "run (cs @ ds) s =
     (fst (run cs s) @ fst (run ds (snd (run cs s))), snd (run ds (snd (run cs s))))"
  by (induction cs arbitrary: s) (auto split: prod.splits)

lemma exec_anchor_fresh:
  assumes "d \<noteq> 0" and "\<not> isAnchored s d"
  shows "exec (Anchor env d) s =
           (Returned,
            s\<lparr>isAnchored := (isAnchored s)(d := True),
              events := events s @ [Anchored d (msg_sender env) (block_timestamp env)]\<rparr>)"
  by (simp add: exec_def anchor_fresh [OF assms])

lemma exec_anchor_reverted:
  assumes "fst (exec (Anchor env h) s) = Reverted reason"
  shows "snd (exec (Anchor env h) s) = s \<and>
         ((h = 0 \<and> reason = ''EMPTY_HASH'') \<or>
          (h \<noteq> 0 \<and> isAnchored s h \<and> reason = ''ALREADY_ANCHORED''))"
proof (cases "anchor env h s")
  case (Inl r)
  with assms have "r = reason"
    by (simp add: exec_def)
  with Inl anchor_Inl_cases [of env h s reason] show ?thesis
    by (simp add: exec_def)
next
  case (Inr t)
  with assms show ?thesis
    by (simp add: exec_def)
qed

lemma exec_events_count:
  assumes "length (events_for d (events s)) = (if isAnchored s d then 1 else 0)"
  shows "length (events_for d (events (snd (exec c s)))) =
         (if isAnchored (snd (exec c s)) d then 1 else 0)"
proof (cases c)
  case (IsAnchored h)
  with assms show ?thesis
    by (simp add: exec_def)
next
  case (Anchor env h)
  show ?thesis
  proof (cases "anchor env h s")
    case (Inl reason)
    with Anchor assms show ?thesis
      by (simp add: exec_def)
  next
    case (Inr t)
    from anchor_Inr_cases [OF Inr] have fresh: "\<not> isAnchored s h"
      and t: "t = s\<lparr>isAnchored := (isAnchored s)(h := True),
                    events := events s @ [Anchored h (msg_sender env) (block_timestamp env)]\<rparr>"
      by simp_all
    from Anchor Inr have e: "snd (exec c s) = t"
      by (simp add: exec_def)
    show ?thesis
    proof (cases "h = d")
      case True
      with fresh assms show ?thesis
        by (simp add: e t events_for_def)
    next
      case False
      with assms show ?thesis
        by (simp add: e t events_for_def)
    qed
  qed
qed

lemma run_events_count:
  "length (events_for d (events s)) = (if isAnchored s d then 1 else 0) \<Longrightarrow>
   length (events_for d (events (snd (run cs s)))) =
     (if isAnchored (snd (run cs s)) d then 1 else 0)"
proof (induction cs arbitrary: s)
  case Nil
  then show ?case by simp
next
  case (Cons c cs)
  from Cons.prems have "length (events_for d (events (snd (exec c s)))) =
         (if isAnchored (snd (exec c s)) d then 1 else 0)"
    by (rule exec_events_count)
  then have "length (events_for d (events (snd (run cs (snd (exec c s)))))) =
     (if isAnchored (snd (run cs (snd (exec c s)))) d then 1 else 0)"
    by (rule Cons.IH)
  then show ?case
    by (simp only: snd_run_Cons)
qed

lemma deployed_events_count:
  "length (events_for d (events (snd (run cs deployed)))) =
     (if isAnchored (snd (run cs deployed)) d then 1 else 0)"
  by (rule run_events_count) (simp add: deployed_def events_for_def)

text \<open>
  Claim C1, as amended. For every digest \<open>d\<close> other than the all-zero sentinel, in a
  state where \<open>d\<close> is not yet anchored, calling \<^verbatim>\<open>anchor(d)\<close> twice behaves as a one-way
  state machine: the first call returns, sets the flag of \<open>d\<close>, leaves every other flag
  as it was and appends exactly one \<^verbatim>\<open>Anchored\<close> event carrying \<open>d\<close>, the caller and the
  block timestamp; the second call reverts with \<^verbatim>\<open>ALREADY_ANCHORED\<close> and leaves the
  ledger exactly as the first call left it (flag still set, no second event). In
  every state, a flag that is set stays set under every call and every sequence of
  calls. And after every history of calls since deployment, the log holds exactly one
  \<^verbatim>\<open>Anchored\<close> event for a digest that is anchored and none for one that is not.
\<close>

theorem anchor_twice_one_way:
  "d \<noteq> 0 \<Longrightarrow> \<not> isAnchored s d \<Longrightarrow>
   fst (exec (Anchor env1 d) s) = Returned \<and>
   isAnchored (snd (exec (Anchor env1 d) s)) d \<and>
   (\<forall>h. h \<noteq> d \<longrightarrow> isAnchored (snd (exec (Anchor env1 d) s)) h = isAnchored s h) \<and>
   events (snd (exec (Anchor env1 d) s)) =
     events s @ [Anchored d (msg_sender env1) (block_timestamp env1)] \<and>
   exec (Anchor env2 d) (snd (exec (Anchor env1 d) s)) =
     (Reverted ''ALREADY_ANCHORED'', snd (exec (Anchor env1 d) s)) \<and>
   (\<forall>t c. isAnchored t d \<longrightarrow> isAnchored (snd (exec c t)) d) \<and>
   (\<forall>t cs. isAnchored t d \<longrightarrow> isAnchored (snd (run cs t)) d) \<and>
   (\<forall>cs. length (events_for d (events (snd (run cs deployed)))) =
           (if isAnchored (snd (run cs deployed)) d then 1 else 0))"
proof -
  assume d: "d \<noteq> 0" and fresh: "\<not> isAnchored s d"
  let ?s1 = "s\<lparr>isAnchored := (isAnchored s)(d := True),
               events := events s @ [Anchored d (msg_sender env1) (block_timestamp env1)]\<rparr>"
  have first: "exec (Anchor env1 d) s = (Returned, ?s1)"
    using d fresh by (rule exec_anchor_fresh)
  have "isAnchored ?s1 d"
    by simp
  with d have "anchor env2 d ?s1 = Inl ''ALREADY_ANCHORED''"
    by (rule anchor_already)
  then have second: "exec (Anchor env2 d) ?s1 = (Reverted ''ALREADY_ANCHORED'', ?s1)"
    by (simp add: exec_def)
  show ?thesis
    using first second exec_keeps_flag run_keeps_flag deployed_events_count by simp
qed

text \<open>
  The claim as it is written, for every digest, fails at the all-zero digest: on a
  freshly deployed registry the first \<^verbatim>\<open>anchor(0)\<close> does not succeed, sets no flag and
  emits no event.
\<close>

theorem anchor_twice_zero_digest_counterexample:
  "exec (Anchor \<lparr>msg_sender = 1, block_timestamp = 1\<rparr> 0) deployed =
     (Reverted ''EMPTY_HASH'', deployed) \<and>
   \<not> isAnchored deployed 0 \<and> events deployed = []"
  by (simp add: exec_def anchor_zero deployed_def)

theorem anchor_twice_one_way_witness:
  "(7 :: bytes32) \<noteq> 0 \<and> \<not> isAnchored deployed 7 \<and>
   fst (exec (Anchor \<lparr>msg_sender = 1, block_timestamp = 100\<rparr> 7) deployed) = Returned \<and>
   isAnchored (snd (exec (Anchor \<lparr>msg_sender = 1, block_timestamp = 100\<rparr> 7) deployed)) 7 \<and>
   events (snd (exec (Anchor \<lparr>msg_sender = 1, block_timestamp = 100\<rparr> 7) deployed)) =
     [Anchored 7 1 100] \<and>
   exec (Anchor \<lparr>msg_sender = 2, block_timestamp = 200\<rparr> 7)
        (snd (exec (Anchor \<lparr>msg_sender = 1, block_timestamp = 100\<rparr> 7) deployed)) =
     (Reverted ''ALREADY_ANCHORED'',
      snd (exec (Anchor \<lparr>msg_sender = 1, block_timestamp = 100\<rparr> 7) deployed))"
proof -
  have h1: "(7 :: bytes32) \<noteq> 0"
    by simp
  have h2: "\<not> isAnchored deployed 7"
    by (simp add: deployed_def)
  show ?thesis
    using h1 h2
      anchor_twice_one_way [OF h1 h2,
        of "\<lparr>msg_sender = 1, block_timestamp = 100\<rparr>"
           "\<lparr>msg_sender = 2, block_timestamp = 200\<rparr>"]
    by (simp add: deployed_def)
qed

text \<open>
  Claim C2. In every state, \<^verbatim>\<open>anchor\<close> of the all-zero digest reverts with
  \<^verbatim>\<open>EMPTY_HASH\<close>. A call of \<^verbatim>\<open>anchor\<close> that reverts leaves the whole ledger (every
  flag and the event log) as it was, and its reason is one of two different names, each
  for its own condition: \<^verbatim>\<open>EMPTY_HASH\<close> exactly for the zero digest,
  \<^verbatim>\<open>ALREADY_ANCHORED\<close> exactly for a non-zero digest whose flag is set.
\<close>

theorem anchor_failures_atomic_and_distinct:
  "exec (Anchor env 0) s = (Reverted ''EMPTY_HASH'', s) \<and>
   (fst (exec (Anchor env h) s) = Reverted reason \<longrightarrow>
      snd (exec (Anchor env h) s) = s \<and>
      ((h = 0 \<and> reason = ''EMPTY_HASH'') \<or>
       (h \<noteq> 0 \<and> isAnchored s h \<and> reason = ''ALREADY_ANCHORED''))) \<and>
   (h \<noteq> 0 \<and> isAnchored s h \<longrightarrow>
      exec (Anchor env h) s = (Reverted ''ALREADY_ANCHORED'', s)) \<and>
   ''EMPTY_HASH'' \<noteq> ''ALREADY_ANCHORED''"
proof -
  have zero: "exec (Anchor env 0) s = (Reverted ''EMPTY_HASH'', s)"
    by (simp add: exec_def anchor_zero)
  have already: "h \<noteq> 0 \<and> isAnchored s h \<longrightarrow>
      exec (Anchor env h) s = (Reverted ''ALREADY_ANCHORED'', s)"
    by (simp add: exec_def anchor_already)
  show ?thesis
    using zero already exec_anchor_reverted [of env h s reason] by simp
qed

theorem anchor_failures_atomic_and_distinct_witness:
  "fst (exec (Anchor \<lparr>msg_sender = 2, block_timestamp = 200\<rparr> 7)
          \<lparr>isAnchored = (\<lambda>h. h = 7), events = [Anchored 7 1 100]\<rparr>) =
     Reverted ''ALREADY_ANCHORED'' \<and>
   snd (exec (Anchor \<lparr>msg_sender = 2, block_timestamp = 200\<rparr> 7)
          \<lparr>isAnchored = (\<lambda>h. h = 7), events = [Anchored 7 1 100]\<rparr>) =
     \<lparr>isAnchored = (\<lambda>h. h = 7), events = [Anchored 7 1 100]\<rparr> \<and>
   exec (Anchor \<lparr>msg_sender = 2, block_timestamp = 200\<rparr> 0)
          \<lparr>isAnchored = (\<lambda>h. h = 7), events = [Anchored 7 1 100]\<rparr> =
     (Reverted ''EMPTY_HASH'', \<lparr>isAnchored = (\<lambda>h. h = 7), events = [Anchored 7 1 100]\<rparr>)"
  using anchor_failures_atomic_and_distinct
    [of "\<lparr>msg_sender = 2, block_timestamp = 200\<rparr>"
        "\<lparr>isAnchored = (\<lambda>h. h = 7), events = [Anchored 7 1 100]\<rparr>" 7 "''ALREADY_ANCHORED''"]
  by simp

text \<open>
  Claim C3. The getter \<^verbatim>\<open>isAnchored(d)\<close> is a pure read: it returns the flag and leaves
  the ledger as it was. In the state reached from deployment by any history of calls it
  returns true exactly when that history holds a successful \<^verbatim>\<open>anchor(d)\<close>: false as long
  as there has been none, and true once there has been one, whatever calls follow.
\<close>

theorem isAnchored_false_before_true_after:
  "exec (IsAnchored d) s = (ReturnedBool (isAnchored s d), s) \<and>
   fst (exec (IsAnchored d) (snd (run cs deployed))) =
     ReturnedBool (anchored_in d (fst (run cs deployed))) \<and>
   (\<not> anchored_in d (fst (run cs deployed)) \<longrightarrow>
      fst (exec (IsAnchored d) (snd (run cs deployed))) = ReturnedBool False) \<and>
   (anchored_in d (fst (run cs deployed)) \<longrightarrow>
      fst (exec (IsAnchored d) (snd (run (cs @ ds) deployed))) = ReturnedBool True)"
proof -
  have read: "exec (IsAnchored d) t = (ReturnedBool (isAnchored t d), t)" for t
    by (simp add: exec_def)
  have now: "isAnchored (snd (run cs deployed)) d = anchored_in d (fst (run cs deployed))"
    using run_flag_iff [of cs deployed d] by (simp add: deployed_def)
  have later: "isAnchored (snd (run (cs @ ds) deployed)) d"
    if "anchored_in d (fst (run cs deployed))"
  proof -
    from that now have "isAnchored (snd (run cs deployed)) d"
      by simp
    then have "isAnchored (snd (run ds (snd (run cs deployed)))) d"
      by (rule run_keeps_flag)
    then show ?thesis
      by (simp add: run_append)
  qed
  show ?thesis
    using now later by (simp add: read)
qed

theorem isAnchored_false_before_true_after_witness:
  "\<not> anchored_in 7 (fst (run [Anchor \<lparr>msg_sender = 1, block_timestamp = 100\<rparr> 0,
                               Anchor \<lparr>msg_sender = 1, block_timestamp = 100\<rparr> 9] deployed)) \<and>
   fst (exec (IsAnchored 7)
     (snd (run [Anchor \<lparr>msg_sender = 1, block_timestamp = 100\<rparr> 0,
                Anchor \<lparr>msg_sender = 1, block_timestamp = 100\<rparr> 9] deployed))) =
     ReturnedBool False \<and>
   anchored_in 7 (fst (run [Anchor \<lparr>msg_sender = 1, block_timestamp = 100\<rparr> 7] deployed)) \<and>
   fst (exec (IsAnchored 7)
     (snd (run ([Anchor \<lparr>msg_sender = 1, block_timestamp = 100\<rparr> 7] @
                [Anchor \<lparr>msg_sender = 2, block_timestamp = 200\<rparr> 7, IsAnchored 7,
                 Anchor \<lparr>msg_sender = 2, block_timestamp = 300\<rparr> 9]) deployed))) =
     ReturnedBool True"
proof -
  have a: "\<not> anchored_in 7 (fst (run [Anchor \<lparr>msg_sender = 1, block_timestamp = 100\<rparr> 0,
                               Anchor \<lparr>msg_sender = 1, block_timestamp = 100\<rparr> 9] deployed))"
    by (simp add: exec_def anchor_def require_def deployed_def)
  have b: "anchored_in 7 (fst (run [Anchor \<lparr>msg_sender = 1, block_timestamp = 100\<rparr> 7] deployed))"
    by (simp add: exec_def anchor_def require_def deployed_def)
  show ?thesis
    using a b
      isAnchored_false_before_true_after
        [of 7 deployed "[Anchor \<lparr>msg_sender = 1, block_timestamp = 100\<rparr> 0,
                         Anchor \<lparr>msg_sender = 1, block_timestamp = 100\<rparr> 9]"]
      isAnchored_false_before_true_after
        [of 7 deployed "[Anchor \<lparr>msg_sender = 1, block_timestamp = 100\<rparr> 7]"
            "[Anchor \<lparr>msg_sender = 2, block_timestamp = 200\<rparr> 7, IsAnchored 7,
              Anchor \<lparr>msg_sender = 2, block_timestamp = 300\<rparr> 9]"]
    by simp
qed

section \<open>Properties of hash derivation\<close>

lemma lower_hex_digits: "map lower_char ''0123456789abcdef'' = ''0123456789abcdef''"
  by (simp add: lower_char_def)

lemma hex_digits_are_hex: "list_all is_hex ''0123456789abcdef''"
  by (simp add: is_hex_def)

lemma lower_char_hexdigit: "n < 16 \<Longrightarrow> lower_char (hexdigit n) = hexdigit n"
proof -
  assume n: "n < 16"
  then have "lower_char (''0123456789abcdef'' ! n) = map lower_char ''0123456789abcdef'' ! n"
    by (subst nth_map) simp_all
  then show ?thesis
    using n by (simp only: lower_hex_digits hexdigit_def if_True)
qed

lemma is_hex_hexdigit: "n < 16 \<Longrightarrow> is_hex (hexdigit n)"
proof -
  assume n: "n < 16"
  then have "is_hex (''0123456789abcdef'' ! n)"
    using hex_digits_are_hex unfolding list_all_length by simp
  then show ?thesis
    using n by (simp only: hexdigit_def if_True)
qed

lemma byte_nibbles: "unat (b :: 8 word) div 16 < 16" "unat b mod 16 < 16"
proof -
  have "unat b < 256"
    using unsigned_less [of b, where ?'a = nat] by simp
  then show "unat b div 16 < 16" by simp
  show "unat b mod 16 < 16" by simp
qed

lemma toLowerCase_digest_hex: "toLowerCase (digest_hex bytes) = digest_hex bytes"
  by (induction bytes)
     (simp_all add: toLowerCase_def digest_hex_def lower_char_hexdigit byte_nibbles)

lemma toLowerCase_0x: "toLowerCase (''0x'' @ t) = ''0x'' @ toLowerCase t"
  by (simp add: toLowerCase_def lower_char_def)

lemma toLowerCase_sha256Hex: "toLowerCase (sha256Hex R input) = sha256Hex R input"
  by (simp only: sha256Hex_def toLowerCase_0x toLowerCase_digest_hex)

lemma pad_byte:
  "padStart 2 (CHR ''0'') (toString16 (unat (b :: 8 word))) =
     [hexdigit (unat b div 16), hexdigit (unat b mod 16)]"
proof (cases "unat b < 16")
  case True
  then show ?thesis
    by (subst toString16.simps) (simp add: padStart_def hexdigit_def)
next
  case False
  have "unat b div 16 < 16"
    by (rule byte_nibbles)
  then have "toString16 (unat b div 16) = [hexdigit (unat b div 16)]"
    by (subst toString16.simps) simp
  with False show ?thesis
    by (subst toString16.simps) (simp add: padStart_def)
qed

lemma sha256Hex_client_eq:
  "sha256Hex_client R text = ''0x'' @ digest_hex (sha256 R (utf8_encode R text))"
  by (simp add: sha256Hex_client_def digest_hex_def pad_byte)

section \<open>Properties of the write path\<close>

lemma post_invalid:
  "ObservationSchema_safeParse body = Inl is \<Longrightarrow>
   post_observations R uuid now body rows =
     (Json 400 (Obj [(''ok'', Bool False), (''error'', flatten R is)]), rows)"
  by (simp add: post_observations_def)

lemma post_mismatch:
  "ObservationSchema_safeParse body = Inr d \<Longrightarrow>
   toLowerCase (sha256Hex R (canonical R d)) \<noteq> toLowerCase (hashHex d) \<Longrightarrow>
   post_observations R uuid now body rows =
     (Json 400 (Obj [(''ok'', Bool False),
        (''error'', Str ''Hash mismatch (server recomputed a different value).'')]), rows)"
  by (simp add: post_observations_def)

lemma z_number_Inr: "z_number p v = Inr n \<Longrightarrow> v = Num n \<and> n \<noteq> NaN"
  by (auto simp: z_number_def split: js.splits if_splits)

lemma safeParse_Inr_props:
  "ObservationSchema_safeParse body = Inr d \<Longrightarrow>
   \<exists>props. body = Obj props \<and>
     get props ''lat'' = Num (lat d) \<and> lat d \<noteq> NaN \<and>
     get props ''lng'' = Num (lng d) \<and> lng d \<noteq> NaN \<and>
     get props ''timestamp'' = Str (timestamp d) \<and>
     z_features [Key ''features''] (get props ''features'') = Inr (features d) \<and>
     get props ''hashHex'' = Str (hashHex d) \<and> matches_hash_pattern (hashHex d)"
  by (auto simp: ObservationSchema_safeParse_def z_hashHex_def z_string_def
           dest!: z_number_Inr split: js.splits sum.splits if_splits)

lemma post_accept:
  assumes "ObservationSchema_safeParse body = Inr d"
    and "toLowerCase (sha256Hex R (canonical R d)) = toLowerCase (hashHex d)"
    and "uuid \<notin> set (map row_id rows)"
  shows "post_observations R uuid now body rows =
     (Json 200 (Obj [(''ok'', Bool True), (''id'', Str uuid), (''createdAt'', Str now),
                     (''hashHex'', Str (hashHex d))]),
      rows @ [\<lparr>row_id = uuid, created_at = now, row_lat = lat d, row_lng = lng d,
               row_timestamp = timestamp d,
               features_json = JSON_stringify_array R (map Feature_js (features d)),
               hash_hex = hashHex d\<rparr>])"
proof -
  from safeParse_Inr_props [OF assms(1)] have "lat d \<noteq> NaN" "lng d \<noteq> NaN"
    by auto
  with assms show ?thesis
    by (simp add: post_observations_def insert_observation_def)
qed

lemma post_store_cases:
  "snd (post_observations R uuid now body rows) = rows \<or>
   (\<exists>d. ObservationSchema_safeParse body = Inr d \<and>
        toLowerCase (sha256Hex R (canonical R d)) = toLowerCase (hashHex d) \<and>
        uuid \<notin> set (map row_id rows) \<and>
        snd (post_observations R uuid now body rows) =
          rows @ [\<lparr>row_id = uuid, created_at = now, row_lat = lat d, row_lng = lng d,
                   row_timestamp = timestamp d,
                   features_json = JSON_stringify_array R (map Feature_js (features d)),
                   hash_hex = hashHex d\<rparr>])"
  by (auto simp: post_observations_def insert_observation_def Let_def
           split: sum.splits if_splits)

lemma isl_issues: "isl r \<Longrightarrow> \<exists>is. r = Inl is"
  by (cases r) auto

lemma z_confidence_out_of_range:
  "num_lt c (Fin 0) \<or> num_lt (Fin 1) c \<Longrightarrow> isl (z_confidence p (Num c))"
  by (auto simp: z_confidence_def z_number_def Let_def)

lemma FeatureSchema_bad_confidence:
  "get fprops ''confidence'' = Num c \<Longrightarrow> num_lt c (Fin 0) \<or> num_lt (Fin 1) c \<Longrightarrow>
   isl (FeatureSchema p (Obj fprops))"
  using z_confidence_out_of_range [of c "p @ [Key ''confidence'']"]
  by (auto simp: FeatureSchema_def split: sum.splits)

lemma FeatureSchema_missing_type:
  "get fprops ''type'' = Undefined \<Longrightarrow> isl (FeatureSchema p (Obj fprops))"
  by (auto simp: FeatureSchema_def z_string_def split: sum.splits)

lemma z_array_items_fail:
  "j < length xs \<Longrightarrow> (\<And>q. isl (FeatureSchema q (xs ! j))) \<Longrightarrow> isl (z_array_items p i xs)"
proof (induction xs arbitrary: i j)
  case Nil
  then show ?case by simp
next
  case (Cons x xs)
  show ?case
  proof (cases j)
    case 0
    with Cons.prems(2) [of "p @ [Index i]"] show ?thesis
      by (auto split: sum.splits)
  next
    case (Suc k)
    with Cons.prems have "k < length xs" "\<And>q. isl (FeatureSchema q (xs ! k))"
      by auto
    then have "isl (z_array_items p (Suc i) xs)"
      by (rule Cons.IH)
    then show ?thesis
      by (auto split: sum.splits)
  qed
qed

lemma safeParse_bad_feature:
  assumes "get props ''features'' = Arr fs" and "j < length fs"
    and "\<And>q. isl (FeatureSchema q (fs ! j))"
  shows "isl (ObservationSchema_safeParse (Obj props))"
proof -
  have "isl (z_array_items [Key ''features''] 0 fs)"
    using assms(2,3) by (rule z_array_items_fail)
  then have "isl (z_features [Key ''features''] (get props ''features''))"
    by (simp add: z_features_def assms(1))
  then show ?thesis
    by (auto simp: ObservationSchema_safeParse_def split: sum.splits)
qed

lemma safeParse_missing:
  "get props ''lat'' = Undefined \<or> get props ''lng'' = Undefined \<or>
   get props ''timestamp'' = Undefined \<or> get props ''hashHex'' = Undefined \<Longrightarrow>
   isl (ObservationSchema_safeParse (Obj props))"
  by (auto simp: ObservationSchema_safeParse_def z_number_def z_string_def z_hashHex_def
           split: sum.splits)

lemma safeParse_bad_hash:
  "get props ''hashHex'' = Str h \<Longrightarrow> \<not> matches_hash_pattern h \<Longrightarrow>
   isl (ObservationSchema_safeParse (Obj props))"
  by (auto simp: ObservationSchema_safeParse_def z_string_def z_hashHex_def
           split: sum.splits)

lemma flatten_is_object:
  "\<exists>fe fi. flatten R is = Obj [(''formErrors'', Arr fe), (''fieldErrors'', Obj fi)]"
  by (simp add: flatten_def)

lemma flatten_not_string: "flatten R is \<noteq> Str m"
  by (simp add: flatten_def)

lemma post_invalid_isl:
  assumes "isl (ObservationSchema_safeParse body)"
  shows "post_observations R uuid now body rows =
     (Json 400 (Obj [(''ok'', Bool False),
                     (''error'', flatten R (issues_of (ObservationSchema_safeParse body)))]),
      rows)"
proof -
  from assms obtain iss where "ObservationSchema_safeParse body = Inl iss"
    by (auto dest: isl_issues)
  then show ?thesis
    by (simp add: post_invalid issues_of_def)
qed

lemma flatten_cong: "issue_message R' = issue_message R \<Longrightarrow> flatten R' is = flatten R is"
  by (simp add: flatten_def)

text \<open>
  Claim C4. A submission that passes the schema and whose claimed \<^verbatim>\<open>hashHex\<close> differs,
  compared without regard to letter case, from the digest the server recomputes from the
  canonical form of the parsed fields is answered with status 400 and the hash-mismatch
  error, which is neither a validation response nor a success; the table is left as it
  was, so every later listing, whatever its limit, is the listing that would have been
  returned without the request. Conversely, whenever a submission changes the table, it
  passed the schema and its recomputed digest matched the claimed one.
\<close>

theorem mismatch_rejected_nothing_persisted:
  "ObservationSchema_safeParse body = Inr d \<Longrightarrow>
   toLowerCase (sha256Hex R (canonical R d)) \<noteq> toLowerCase (hashHex d) \<Longrightarrow>
   post_observations R uuid now body rows =
     (Json 400 (Obj [(''ok'', Bool False),
        (''error'', Str ''Hash mismatch (server recomputed a different value).'')]), rows) \<and>
   (\<forall>is. fst (post_observations R uuid now body rows) \<noteq>
          Json 400 (Obj [(''ok'', Bool False), (''error'', flatten R is)])) \<and>
   (\<forall>v. fst (post_observations R uuid now body rows) \<noteq> Json 200 v) \<and>
   (\<forall>q. get_observations R q (snd (post_observations R uuid now body rows)) =
        get_observations R q rows) \<and>
   (\<forall>uuid' now' body' rows'.
      snd (post_observations R uuid' now' body' rows') \<noteq> rows' \<longrightarrow>
      (\<exists>d'. ObservationSchema_safeParse body' = Inr d' \<and>
            toLowerCase (sha256Hex R (canonical R d')) = toLowerCase (hashHex d')))"
proof -
  assume ok: "ObservationSchema_safeParse body = Inr d"
    and ne: "toLowerCase (sha256Hex R (canonical R d)) \<noteq> toLowerCase (hashHex d)"
  have r: "post_observations R uuid now body rows =
     (Json 400 (Obj [(''ok'', Bool False),
        (''error'', Str ''Hash mismatch (server recomputed a different value).'')]), rows)"
    using ok ne by (rule post_mismatch)
  have only: "\<exists>d'. ObservationSchema_safeParse body' = Inr d' \<and>
            toLowerCase (sha256Hex R (canonical R d')) = toLowerCase (hashHex d')"
    if "snd (post_observations R uuid' now' body' rows') \<noteq> rows'"
    for uuid' now' body' rows'
    using that post_store_cases [of R uuid' now' body' rows'] by blast
  show ?thesis
    using only by (simp add: r flatten_not_string [THEN not_sym])
qed

lemma parse_body_mismatch:
  "ObservationSchema_safeParse body_mismatch =
     Inr (example_data\<lparr>hashHex := ''0x'' @ concat (replicate 32 ''00'')\<rparr>)"
  by code_simp

lemma parse_body_upper:
  "ObservationSchema_safeParse body_upper =
     Inr (example_data\<lparr>hashHex := ''0x'' @ concat (replicate 32 ''AB'')\<rparr>)"
  by code_simp

lemma parse_body_lower: "ObservationSchema_safeParse body_lower = Inr example_data"
  by code_simp

lemma demo_digest:
  "sha256Hex demo_runtime text = ''0x'' @ concat (replicate 32 ''ab'')"
proof -
  have "digest_hex (replicate 32 0xAB) = concat (replicate 32 ''ab'')"
    by code_simp
  then show ?thesis
    by (simp add: sha256Hex_def demo_runtime_def)
qed

lemma lower_00: "toLowerCase (''0x'' @ concat (replicate 32 ''00'')) = ''0x'' @ concat (replicate 32 ''00'')"
  by code_simp

lemma lower_ab: "toLowerCase (''0x'' @ concat (replicate 32 ''ab'')) = ''0x'' @ concat (replicate 32 ''ab'')"
  by code_simp

lemma lower_AB: "toLowerCase (''0x'' @ concat (replicate 32 ''AB'')) = ''0x'' @ concat (replicate 32 ''ab'')"
  by code_simp

lemma ab_ne_00: "''0x'' @ concat (replicate 32 ''ab'') \<noteq> ''0x'' @ concat (replicate 32 ''00'')"
  by code_simp

lemma ab_ne_AB: "''0x'' @ concat (replicate 32 ''AB'') \<noteq> ''0x'' @ concat (replicate 32 ''ab'')"
  by code_simp

lemma hashHex_update: "hashHex (d\<lparr>hashHex := h\<rparr>) = h"
  by simp

theorem mismatch_rejected_nothing_persisted_witness:
  "ObservationSchema_safeParse body_mismatch =
     Inr (example_data\<lparr>hashHex := ''0x'' @ concat (replicate 32 ''00'')\<rparr>) \<and>
   toLowerCase (sha256Hex demo_runtime
       (canonical demo_runtime (example_data\<lparr>hashHex := ''0x'' @ concat (replicate 32 ''00'')\<rparr>))) \<noteq>
     toLowerCase (hashHex (example_data\<lparr>hashHex := ''0x'' @ concat (replicate 32 ''00'')\<rparr>)) \<and>
   post_observations demo_runtime ''id-1'' ''2024-01-02T00:00:00.000Z'' body_mismatch [] =
     (Json 400 (Obj [(''ok'', Bool False),
        (''error'', Str ''Hash mismatch (server recomputed a different value).'')]), []) \<and>
   get_observations demo_runtime (Some (Fin 1000))
     (snd (post_observations demo_runtime ''id-1'' ''2024-01-02T00:00:00.000Z'' body_mismatch [])) =
     get_observations demo_runtime (Some (Fin 1000)) []"
proof -
  have ne: "toLowerCase (sha256Hex demo_runtime
       (canonical demo_runtime (example_data\<lparr>hashHex := ''0x'' @ concat (replicate 32 ''00'')\<rparr>))) \<noteq>
     toLowerCase (hashHex (example_data\<lparr>hashHex := ''0x'' @ concat (replicate 32 ''00'')\<rparr>))"
    unfolding demo_digest hashHex_update lower_ab lower_00 by (rule ab_ne_00)
  show ?thesis
    using parse_body_mismatch ne
      mismatch_rejected_nothing_persisted [OF parse_body_mismatch ne,
        of "''id-1''" "''2024-01-02T00:00:00.000Z''" "[]"]
    by simp
qed

lemma post_invalid_same:
  assumes "isl (ObservationSchema_safeParse body)" and "issue_message R' = issue_message R"
  shows "post_observations R' uuid now body rows = post_observations R uuid now body rows"
  by (simp only: post_invalid_isl [OF assms(1)] flatten_cong [OF assms(2)])

lemma post_invalid_not_mismatch:
  assumes "isl (ObservationSchema_safeParse body)"
  shows "fst (post_observations R uuid now body rows) \<noteq>
        Json 400 (Obj [(''ok'', Bool False),
          (''error'', Str ''Hash mismatch (server recomputed a different value).'')])"
  by (simp add: post_invalid_isl [OF assms] flatten_not_string)

lemma safeParse_bad_feature_object:
  assumes "get props ''features'' = Arr fs" and "j < length fs" and "fs ! j = Obj fprops"
    and "get fprops ''type'' = Undefined \<or>
       get fprops ''confidence'' = Num c \<and> (num_lt c (Fin 0) \<or> num_lt (Fin 1) c)"
  shows "isl (ObservationSchema_safeParse (Obj props))"
proof (rule safeParse_bad_feature [OF assms(1,2)])
  fix q
  from assms(4) show "isl (FeatureSchema q (fs ! j))"
  proof
    assume "get fprops ''type'' = Undefined"
    then show ?thesis
      unfolding assms(3) by (rule FeatureSchema_missing_type)
  next
    assume "get fprops ''confidence'' = Num c \<and> (num_lt c (Fin 0) \<or> num_lt (Fin 1) c)"
    then have a: "get fprops ''confidence'' = Num c"
      and b: "num_lt c (Fin 0) \<or> num_lt (Fin 1) c"
      by blast+
    show ?thesis
      unfolding assms(3) using a b by (rule FeatureSchema_bad_confidence)
  qed
qed


text \<open>
  Claim C5. A body the schema refuses is answered with status 400 and the flattened
  issues (an object with \<^verbatim>\<open>formErrors\<close> and \<^verbatim>\<open>fieldErrors\<close>, never the
  hash-mismatch string), and the table is left as it was. The answer is the same for
  every runtime with the same error map, whatever its number printing, encoder and
  digest function: nothing is put in canonical form or hashed. The schema refuses every
  body in which \<^verbatim>\<open>lat\<close>, \<^verbatim>\<open>lng\<close>, \<^verbatim>\<open>timestamp\<close> or \<^verbatim>\<open>hashHex\<close> is missing, every
  body holding a feature without \<^verbatim>\<open>type\<close> or with a confidence below 0 or above 1, and
  every body whose \<^verbatim>\<open>hashHex\<close> is not \<^verbatim>\<open>0x\<close> followed by exactly 64 hexadecimal
  digits.
\<close>

theorem invalid_shape_rejected_before_hashing:
  "(isl (ObservationSchema_safeParse body) \<longrightarrow>
      post_observations R uuid now body rows =
        (Json 400 (Obj [(''ok'', Bool False),
                        (''error'', flatten R (issues_of (ObservationSchema_safeParse body)))]),
         rows) \<and>
      (\<forall>R'. issue_message R' = issue_message R \<longrightarrow>
            post_observations R' uuid now body rows = post_observations R uuid now body rows) \<and>
      (\<exists>fe fi. flatten R (issues_of (ObservationSchema_safeParse body)) =
                Obj [(''formErrors'', Arr fe), (''fieldErrors'', Obj fi)]) \<and>
      fst (post_observations R uuid now body rows) \<noteq>
        Json 400 (Obj [(''ok'', Bool False),
          (''error'', Str ''Hash mismatch (server recomputed a different value).'')])) \<and>
   (get props ''lat'' = Undefined \<or> get props ''lng'' = Undefined \<or>
    get props ''timestamp'' = Undefined \<or> get props ''hashHex'' = Undefined \<longrightarrow>
      isl (ObservationSchema_safeParse (Obj props))) \<and>
   (get props ''features'' = Arr fs \<and> j < length fs \<and> fs ! j = Obj fprops \<and>
    (get fprops ''type'' = Undefined \<or>
     get fprops ''confidence'' = Num c \<and> (num_lt c (Fin 0) \<or> num_lt (Fin 1) c)) \<longrightarrow>
      isl (ObservationSchema_safeParse (Obj props))) \<and>
   (get props ''hashHex'' = Str h \<and> \<not> matches_hash_pattern h \<longrightarrow>
      isl (ObservationSchema_safeParse (Obj props)))"
proof (intro conjI impI allI)
  assume "isl (ObservationSchema_safeParse body)"
  then show "post_observations R uuid now body rows =
        (Json 400 (Obj [(''ok'', Bool False),
                        (''error'', flatten R (issues_of (ObservationSchema_safeParse body)))]),
         rows)"
    by (rule post_invalid_isl)
next
  fix R' :: runtime
  assume "isl (ObservationSchema_safeParse body)" "issue_message R' = issue_message R"
  then show "post_observations R' uuid now body rows = post_observations R uuid now body rows"
    by (rule post_invalid_same)
next
  show "\<exists>fe fi. flatten R (issues_of (ObservationSchema_safeParse body)) =
                Obj [(''formErrors'', Arr fe), (''fieldErrors'', Obj fi)]"
    by (rule flatten_is_object)
next
  assume "isl (ObservationSchema_safeParse body)"
  then show "fst (post_observations R uuid now body rows) \<noteq>
        Json 400 (Obj [(''ok'', Bool False),
          (''error'', Str ''Hash mismatch (server recomputed a different value).'')])"
    by (rule post_invalid_not_mismatch)
next
  assume "get props ''lat'' = Undefined \<or> get props ''lng'' = Undefined \<or>
    get props ''timestamp'' = Undefined \<or> get props ''hashHex'' = Undefined"
  then show "isl (ObservationSchema_safeParse (Obj props))"
    by (rule safeParse_missing)
next
  assume "get props ''features'' = Arr fs \<and> j < length fs \<and> fs ! j = Obj fprops \<and>
    (get fprops ''type'' = Undefined \<or>
     get fprops ''confidence'' = Num c \<and> (num_lt c (Fin 0) \<or> num_lt (Fin 1) c))"
  then have "get props ''features'' = Arr fs" "j < length fs" "fs ! j = Obj fprops"
    "get fprops ''type'' = Undefined \<or>
     get fprops ''confidence'' = Num c \<and> (num_lt c (Fin 0) \<or> num_lt (Fin 1) c)"
    by blast+
  then show "isl (ObservationSchema_safeParse (Obj props))"
    by (rule safeParse_bad_feature_object)
next
  assume "get props ''hashHex'' = Str h \<and> \<not> matches_hash_pattern h"
  then have "get props ''hashHex'' = Str h" "\<not> matches_hash_pattern h"
    by blast+
  then show "isl (ObservationSchema_safeParse (Obj props))"
    by (rule safeParse_bad_hash)
qed

theorem invalid_shape_rejected_before_hashing_witness:
  "isl (ObservationSchema_safeParse (Obj [(''lat'', Num (Fin 1))])) \<and>
   get [(''lat'', Num (Fin 1))] ''hashHex'' = Undefined \<and>
   post_observations demo_runtime ''id-1'' ''2024-01-02T00:00:00.000Z''
       (Obj [(''lat'', Num (Fin 1))]) [] =
     (Json 400 (Obj [(''ok'', Bool False),
        (''error'', flatten demo_runtime
           (issues_of (ObservationSchema_safeParse (Obj [(''lat'', Num (Fin 1))]))))]), []) \<and>
   num_lt (Fin 1) (Fin 2) \<and>
   isl (ObservationSchema_safeParse
     (Obj [(''lat'', Num (Fin 1)), (''lng'', Num (Fin 2)), (''timestamp'', Str ''now''),
           (''features'', Arr [Obj [(''type'', Str ''pothole''), (''confidence'', Num (Fin 2))]]),
           (''hashHex'', Str (''0x'' @ concat (replicate 32 ''ab'')))])) \<and>
   \<not> matches_hash_pattern ''0x12'' \<and>
   isl (ObservationSchema_safeParse
     (Obj [(''lat'', Num (Fin 1)), (''lng'', Num (Fin 2)), (''timestamp'', Str ''now''),
           (''hashHex'', Str ''0x12'')]))"
proof -
  have a: "isl (ObservationSchema_safeParse (Obj [(''lat'', Num (Fin 1))]))"
    by code_simp
  have b: "get [(''lat'', Num (Fin 1))] ''hashHex'' = Undefined"
    by (simp add: get_def)
  have c: "num_lt (Fin 1) (Fin 2)"
    by simp
  have d: "\<not> matches_hash_pattern ''0x12''"
    by (simp add: matches_hash_pattern_def)
  have e: "get [(''lat'', Num (Fin 1)), (''lng'', Num (Fin 2)), (''timestamp'', Str ''now''),
           (''features'', Arr [Obj [(''type'', Str ''pothole''), (''confidence'', Num (Fin 2))]]),
           (''hashHex'', Str (''0x'' @ concat (replicate 32 ''ab'')))] ''features'' =
           Arr [Obj [(''type'', Str ''pothole''), (''confidence'', Num (Fin 2))]]"
    by (simp add: get_def)
  have f: "get [(''type'', Str ''pothole''), (''confidence'', Num (Fin 2))] ''confidence'' =
           Num (Fin 2)"
    by (simp add: get_def)
  have g: "get [(''lat'', Num (Fin 1)), (''lng'', Num (Fin 2)), (''timestamp'', Str ''now''),
           (''hashHex'', Str ''0x12'')] ''hashHex'' = Str ''0x12''"
    by (simp add: get_def)
  have h: "[Obj [(''type'', Str ''pothole''), (''confidence'', Num (Fin 2))]] ! 0 =
           Obj [(''type'', Str ''pothole''), (''confidence'', Num (Fin 2))]"
    "(0::nat) < length [Obj [(''type'', Str ''pothole''), (''confidence'', Num (Fin 2))]]"
    by simp_all
  note t1 = invalid_shape_rejected_before_hashing
      [where body = "Obj [(''lat'', Num (Fin 1))]" and R = demo_runtime
         and uuid = "''id-1''" and now = "''2024-01-02T00:00:00.000Z''" and rows = "[]"
         and props = "[(''lat'', Num (Fin 1)), (''lng'', Num (Fin 2)), (''timestamp'', Str ''now''),
           (''features'', Arr [Obj [(''type'', Str ''pothole''), (''confidence'', Num (Fin 2))]]),
           (''hashHex'', Str (''0x'' @ concat (replicate 32 ''ab'')))]"
         and fs = "[Obj [(''type'', Str ''pothole''), (''confidence'', Num (Fin 2))]]"
         and j = 0 and fprops = "[(''type'', Str ''pothole''), (''confidence'', Num (Fin 2))]"
         and c = "Fin 2"]
  note t2 = invalid_shape_rejected_before_hashing
      [where props = "[(''lat'', Num (Fin 1)), (''lng'', Num (Fin 2)), (''timestamp'', Str ''now''),
           (''hashHex'', Str ''0x12'')]" and h = "''0x12''"]
  from t1 a have p1: "post_observations demo_runtime ''id-1'' ''2024-01-02T00:00:00.000Z''
       (Obj [(''lat'', Num (Fin 1))]) [] =
     (Json 400 (Obj [(''ok'', Bool False),
        (''error'', flatten demo_runtime
           (issues_of (ObservationSchema_safeParse (Obj [(''lat'', Num (Fin 1))]))))]), [])"
    by blast
  from t1 e f h c have p2: "isl (ObservationSchema_safeParse
     (Obj [(''lat'', Num (Fin 1)), (''lng'', Num (Fin 2)), (''timestamp'', Str ''now''),
           (''features'', Arr [Obj [(''type'', Str ''pothole''), (''confidence'', Num (Fin 2))]]),
           (''hashHex'', Str (''0x'' @ concat (replicate 32 ''ab'')))]))"
    by blast
  from t2 g d have p3: "isl (ObservationSchema_safeParse
     (Obj [(''lat'', Num (Fin 1)), (''lng'', Num (Fin 2)), (''timestamp'', Str ''now''),
           (''hashHex'', Str ''0x12'')]))"
    by blast
  show ?thesis
    using a b c d p1 p2 p3 by blast
qed

lemma post_response_cases:
  "(\<exists>iss. ObservationSchema_safeParse body = Inl iss \<and>
      post_observations R uuid now body rows =
        (Json 400 (Obj [(''ok'', Bool False), (''error'', flatten R iss)]), rows)) \<or>
   (\<exists>d. ObservationSchema_safeParse body = Inr d \<and>
      toLowerCase (sha256Hex R (canonical R d)) \<noteq> toLowerCase (hashHex d) \<and>
      post_observations R uuid now body rows =
        (Json 400 (Obj [(''ok'', Bool False),
           (''error'', Str ''Hash mismatch (server recomputed a different value).'')]), rows)) \<or>
   (\<exists>d. ObservationSchema_safeParse body = Inr d \<and>
      toLowerCase (sha256Hex R (canonical R d)) = toLowerCase (hashHex d) \<and>
      uuid \<in> set (map row_id rows) \<and>
      post_observations R uuid now body rows = (Threw, rows)) \<or>
   (\<exists>d. ObservationSchema_safeParse body = Inr d \<and>
      toLowerCase (sha256Hex R (canonical R d)) = toLowerCase (hashHex d) \<and>
      uuid \<notin> set (map row_id rows) \<and>
      post_observations R uuid now body rows =
        (Json 200 (Obj [(''ok'', Bool True), (''id'', Str uuid), (''createdAt'', Str now),
                        (''hashHex'', Str (hashHex d))]),
         rows @ [\<lparr>row_id = uuid, created_at = now, row_lat = lat d, row_lng = lng d,
                  row_timestamp = timestamp d,
                  features_json = JSON_stringify_array R (map Feature_js (features d)),
                  hash_hex = hashHex d\<rparr>]))"
proof (cases "ObservationSchema_safeParse body")
  case (Inl iss)
  then show ?thesis
    by (simp add: post_invalid)
next
  case (Inr d)
  show ?thesis
  proof (cases "toLowerCase (sha256Hex R (canonical R d)) = toLowerCase (hashHex d)")
    case False
    with Inr show ?thesis
      by (simp add: post_mismatch)
  next
    case True
    show ?thesis
    proof (cases "uuid \<in> set (map row_id rows)")
      case False
      with Inr True show ?thesis
        by (simp add: post_accept)
    next
      case dup: True
      with Inr True have "post_observations R uuid now body rows = (Threw, rows)"
        by (simp add: post_observations_def insert_observation_def)
      with Inr True dup show ?thesis
        by simp
    qed
  qed
qed

lemma post_400_body:
  assumes "fst (post_observations R uuid now body rows) = Json 400 v"
  shows "v = Obj [(''ok'', Bool False),
            (''error'', Str ''Hash mismatch (server recomputed a different value).'')] \<or>
         (\<exists>fe fi. v = Obj [(''ok'', Bool False),
            (''error'', Obj [(''formErrors'', Arr fe), (''fieldErrors'', Obj fi)])])"
  using post_response_cases [of body R uuid now rows] assms
  by (auto simp: flatten_def)

lemma demo_mismatch:
  "toLowerCase (sha256Hex demo_runtime
       (canonical demo_runtime (example_data\<lparr>hashHex := ''0x'' @ concat (replicate 32 ''00'')\<rparr>))) \<noteq>
     toLowerCase (hashHex (example_data\<lparr>hashHex := ''0x'' @ concat (replicate 32 ''00'')\<rparr>))"
  unfolding demo_digest hashHex_update lower_ab lower_00 by (rule ab_ne_00)

text \<open>
  Claim C9, as amended. A submission whose recomputed digest differs from the claimed one
  is answered with status 400 and the body
  \<^verbatim>\<open>{ok: false, error: 'Hash mismatch (server recomputed a different value).'}\<close>. No
  error response carries a kind of its own: the body of every status-400 answer of the
  route has the two keys \<^verbatim>\<open>ok\<close> and \<^verbatim>\<open>error\<close> only, and \<^verbatim>\<open>error\<close> is either that
  fixed string (integrity) or the object of flattened issues with \<^verbatim>\<open>formErrors\<close> and
  \<^verbatim>\<open>fieldErrors\<close> (validation).
\<close>

theorem mismatch_response_status_and_body:
  "ObservationSchema_safeParse body = Inr d \<Longrightarrow>
   toLowerCase (sha256Hex R (canonical R d)) \<noteq> toLowerCase (hashHex d) \<Longrightarrow>
   fst (post_observations R uuid now body rows) =
     Json 400 (Obj [(''ok'', Bool False),
       (''error'', Str ''Hash mismatch (server recomputed a different value).'')]) \<and>
   (\<forall>uuid' now' body' rows' v.
      fst (post_observations R uuid' now' body' rows') = Json 400 v \<longrightarrow>
        v = Obj [(''ok'', Bool False),
              (''error'', Str ''Hash mismatch (server recomputed a different value).'')] \<or>
        (\<exists>fe fi. v = Obj [(''ok'', Bool False),
              (''error'', Obj [(''formErrors'', Arr fe), (''fieldErrors'', Obj fi)])]))"
proof -
  assume ok: "ObservationSchema_safeParse body = Inr d"
    and ne: "toLowerCase (sha256Hex R (canonical R d)) \<noteq> toLowerCase (hashHex d)"
  have "fst (post_observations R uuid now body rows) =
     Json 400 (Obj [(''ok'', Bool False),
       (''error'', Str ''Hash mismatch (server recomputed a different value).'')])"
    by (simp add: post_mismatch [OF ok ne])
  then show ?thesis
    using post_400_body by blast
qed

text \<open>
  The claim as it is written gives the body as \<^verbatim>\<open>{ok: false, error: "hash mismatch"}\<close>.
  The worked example submitted with a digest of zeros passes the schema and does not
  match; the answer's error is the longer sentence, a plain string.
\<close>

theorem mismatch_response_body_counterexample:
  "ObservationSchema_safeParse body_mismatch =
     Inr (example_data\<lparr>hashHex := ''0x'' @ concat (replicate 32 ''00'')\<rparr>) \<and>
   toLowerCase (sha256Hex demo_runtime
       (canonical demo_runtime (example_data\<lparr>hashHex := ''0x'' @ concat (replicate 32 ''00'')\<rparr>))) \<noteq>
     toLowerCase (hashHex (example_data\<lparr>hashHex := ''0x'' @ concat (replicate 32 ''00'')\<rparr>)) \<and>
   fst (post_observations demo_runtime ''id-1'' ''2024-01-02T00:00:00.000Z'' body_mismatch []) =
     Json 400 (Obj [(''ok'', Bool False),
       (''error'', Str ''Hash mismatch (server recomputed a different value).'')]) \<and>
   fst (post_observations demo_runtime ''id-1'' ''2024-01-02T00:00:00.000Z'' body_mismatch []) \<noteq>
     Json 400 (Obj [(''ok'', Bool False), (''error'', Str ''hash mismatch'')])"
  using parse_body_mismatch demo_mismatch
  by (simp add: post_mismatch [OF parse_body_mismatch demo_mismatch])

theorem mismatch_response_status_and_body_witness:
  "ObservationSchema_safeParse body_mismatch =
     Inr (example_data\<lparr>hashHex := ''0x'' @ concat (replicate 32 ''00'')\<rparr>) \<and>
   toLowerCase (sha256Hex demo_runtime
       (canonical demo_runtime (example_data\<lparr>hashHex := ''0x'' @ concat (replicate 32 ''00'')\<rparr>))) \<noteq>
     toLowerCase (hashHex (example_data\<lparr>hashHex := ''0x'' @ concat (replicate 32 ''00'')\<rparr>)) \<and>
   fst (post_observations demo_runtime ''id-2'' ''2024-01-03T00:00:00.000Z'' body_mismatch []) =
     Json 400 (Obj [(''ok'', Bool False),
       (''error'', Str ''Hash mismatch (server recomputed a different value).'')])"
  using parse_body_mismatch demo_mismatch
    mismatch_response_status_and_body [OF parse_body_mismatch demo_mismatch,
      of "''id-2''" "''2024-01-03T00:00:00.000Z''" "[]"]
  by blast

lemma post_200_stored:
  assumes "fst (post_observations R uuid now body rows) = Json 200 v"
  shows "\<exists>props h row. body = Obj props \<and> get props ''hashHex'' = Str h \<and>
           v = Obj [(''ok'', Bool True), (''id'', Str uuid), (''createdAt'', Str now),
                    (''hashHex'', Str h)] \<and>
           snd (post_observations R uuid now body rows) = rows @ [row] \<and>
           hash_hex row = h"
proof -
  from post_response_cases [of body R uuid now rows] assms
  obtain d where d: "ObservationSchema_safeParse body = Inr d"
    and eq: "toLowerCase (sha256Hex R (canonical R d)) = toLowerCase (hashHex d)"
    and r: "post_observations R uuid now body rows =
        (Json 200 (Obj [(''ok'', Bool True), (''id'', Str uuid), (''createdAt'', Str now),
                        (''hashHex'', Str (hashHex d))]),
         rows @ [\<lparr>row_id = uuid, created_at = now, row_lat = lat d, row_lng = lng d,
                  row_timestamp = timestamp d,
                  features_json = JSON_stringify_array R (map Feature_js (features d)),
                  hash_hex = hashHex d\<rparr>])"
    by auto
  from safeParse_Inr_props [OF d] obtain props where
    p: "body = Obj props" "get props ''hashHex'' = Str (hashHex d)"
    by blast
  with r assms show ?thesis
    by simp
qed

text \<open>
  Claim C10. When a submission is accepted, the digest written to the table and the one
  echoed in the answer are the \<^verbatim>\<open>hashHex\<close> string of the request body, character for
  character; the recomputed digest is used for the comparison only. The server's
  \<^verbatim>\<open>sha256Hex\<close> always prints lowercase, and the comparison lowers both sides, so a
  claimed digest in uppercase is accepted and stored in uppercase (the witness below
  stores \<^verbatim>\<open>0xABAB...\<close> where the recomputed digest is \<^verbatim>\<open>0xabab...\<close>).
\<close>

theorem stored_digest_is_claimed_string_verbatim:
  "(ObservationSchema_safeParse body = Inr d \<and>
    toLowerCase (sha256Hex R (canonical R d)) = toLowerCase (hashHex d) \<and>
    uuid \<notin> set (map row_id rows) \<longrightarrow>
      post_observations R uuid now body rows =
        (Json 200 (Obj [(''ok'', Bool True), (''id'', Str uuid), (''createdAt'', Str now),
                        (''hashHex'', Str (hashHex d))]),
         rows @ [\<lparr>row_id = uuid, created_at = now, row_lat = lat d, row_lng = lng d,
                  row_timestamp = timestamp d,
                  features_json = JSON_stringify_array R (map Feature_js (features d)),
                  hash_hex = hashHex d\<rparr>]) \<and>
      (\<exists>props. body = Obj props \<and> get props ''hashHex'' = Str (hashHex d))) \<and>
   (fst (post_observations R uuid now body rows) = Json 200 v \<longrightarrow>
      (\<exists>props h row. body = Obj props \<and> get props ''hashHex'' = Str h \<and>
         v = Obj [(''ok'', Bool True), (''id'', Str uuid), (''createdAt'', Str now),
                  (''hashHex'', Str h)] \<and>
         snd (post_observations R uuid now body rows) = rows @ [row] \<and>
         hash_hex row = h)) \<and>
   toLowerCase (sha256Hex R text) = sha256Hex R text"
proof (intro conjI impI)
  assume a: "ObservationSchema_safeParse body = Inr d \<and>
    toLowerCase (sha256Hex R (canonical R d)) = toLowerCase (hashHex d) \<and>
    uuid \<notin> set (map row_id rows)"
  then show "post_observations R uuid now body rows =
        (Json 200 (Obj [(''ok'', Bool True), (''id'', Str uuid), (''createdAt'', Str now),
                        (''hashHex'', Str (hashHex d))]),
         rows @ [\<lparr>row_id = uuid, created_at = now, row_lat = lat d, row_lng = lng d,
                  row_timestamp = timestamp d,
                  features_json = JSON_stringify_array R (map Feature_js (features d)),
                  hash_hex = hashHex d\<rparr>])"
    by (intro post_accept) blast+
  from a have "ObservationSchema_safeParse body = Inr d"
    by blast
  from safeParse_Inr_props [OF this]
  show "\<exists>props. body = Obj props \<and> get props ''hashHex'' = Str (hashHex d)"
    by blast
next
  assume "fst (post_observations R uuid now body rows) = Json 200 v"
  from post_200_stored [OF this]
  show "\<exists>props h row. body = Obj props \<and> get props ''hashHex'' = Str h \<and>
         v = Obj [(''ok'', Bool True), (''id'', Str uuid), (''createdAt'', Str now),
                  (''hashHex'', Str h)] \<and>
         snd (post_observations R uuid now body rows) = rows @ [row] \<and>
         hash_hex row = h"
    by blast
next
  show "toLowerCase (sha256Hex R text) = sha256Hex R text"
    by (rule toLowerCase_sha256Hex)
qed

lemma demo_upper_matches:
  "toLowerCase (sha256Hex demo_runtime
       (canonical demo_runtime (example_data\<lparr>hashHex := ''0x'' @ concat (replicate 32 ''AB'')\<rparr>))) =
     toLowerCase (hashHex (example_data\<lparr>hashHex := ''0x'' @ concat (replicate 32 ''AB'')\<rparr>))"
  unfolding demo_digest hashHex_update lower_ab lower_AB by (rule refl)

theorem stored_digest_is_claimed_string_verbatim_witness:
  "ObservationSchema_safeParse body_upper =
     Inr (example_data\<lparr>hashHex := ''0x'' @ concat (replicate 32 ''AB'')\<rparr>) \<and>
   sha256Hex demo_runtime
       (canonical demo_runtime (example_data\<lparr>hashHex := ''0x'' @ concat (replicate 32 ''AB'')\<rparr>)) =
     ''0x'' @ concat (replicate 32 ''ab'') \<and>
   ''0x'' @ concat (replicate 32 ''AB'') \<noteq> ''0x'' @ concat (replicate 32 ''ab'') \<and>
   fst (post_observations demo_runtime ''id-1'' ''2024-01-02T00:00:00.000Z'' body_upper []) =
     Json 200 (Obj [(''ok'', Bool True), (''id'', Str ''id-1''),
                    (''createdAt'', Str ''2024-01-02T00:00:00.000Z''),
                    (''hashHex'', Str (''0x'' @ concat (replicate 32 ''AB'')))]) \<and>
   map hash_hex (snd (post_observations demo_runtime ''id-1'' ''2024-01-02T00:00:00.000Z''
                        body_upper [])) =
     [''0x'' @ concat (replicate 32 ''AB'')]"
proof -
  have fresh: "''id-1'' \<notin> set (map row_id ([] :: db))"
    by simp
  from stored_digest_is_claimed_string_verbatim
         [where body = body_upper and R = demo_runtime and uuid = "''id-1''" and rows = "[]"
            and d = "example_data\<lparr>hashHex := ''0x'' @ concat (replicate 32 ''AB'')\<rparr>"
            and now = "''2024-01-02T00:00:00.000Z''"]
       parse_body_upper demo_upper_matches fresh
  have "post_observations demo_runtime ''id-1'' ''2024-01-02T00:00:00.000Z'' body_upper [] =
        (Json 200 (Obj [(''ok'', Bool True), (''id'', Str ''id-1''),
                        (''createdAt'', Str ''2024-01-02T00:00:00.000Z''),
                        (''hashHex'', Str (hashHex
                           (example_data\<lparr>hashHex := ''0x'' @ concat (replicate 32 ''AB'')\<rparr>)))]),
         [] @ [\<lparr>row_id = ''id-1'', created_at = ''2024-01-02T00:00:00.000Z'',
                row_lat = lat (example_data\<lparr>hashHex := ''0x'' @ concat (replicate 32 ''AB'')\<rparr>),
                row_lng = lng (example_data\<lparr>hashHex := ''0x'' @ concat (replicate 32 ''AB'')\<rparr>),
                row_timestamp = timestamp (example_data\<lparr>hashHex := ''0x'' @ concat (replicate 32 ''AB'')\<rparr>),
                features_json = JSON_stringify_array demo_runtime
                  (map Feature_js (features (example_data\<lparr>hashHex := ''0x'' @ concat (replicate 32 ''AB'')\<rparr>))),
                hash_hex = hashHex (example_data\<lparr>hashHex := ''0x'' @ concat (replicate 32 ''AB'')\<rparr>)\<rparr>])"
    by blast
  then have "fst (post_observations demo_runtime ''id-1'' ''2024-01-02T00:00:00.000Z'' body_upper []) =
     Json 200 (Obj [(''ok'', Bool True), (''id'', Str ''id-1''),
                    (''createdAt'', Str ''2024-01-02T00:00:00.000Z''),
                    (''hashHex'', Str (''0x'' @ concat (replicate 32 ''AB'')))])"
    and "map hash_hex (snd (post_observations demo_runtime ''id-1'' ''2024-01-02T00:00:00.000Z''
                        body_upper [])) =
     [''0x'' @ concat (replicate 32 ''AB'')]"
    by (simp_all only: fst_conv snd_conv hashHex_update append_Nil list.map
          Observation.select_convs)
  with parse_body_upper demo_digest ab_ne_AB show ?thesis
    by blast
qed

section \<open>Properties of the listing\<close>

lemma observations_of_listing:
  "observations_of (Json 200 (Obj [(''ok'', Bool True), (''observations'', Arr xs)])) = xs"
  by (simp add: observations_of_def get_def)

lemma observations_of_Threw: "observations_of Threw = []"
  by (simp add: observations_of_def)

lemma sqlite_limit_minus_one: "sqlite_limit (Fin (- 1)) rows = Inr rows"
  by (simp add: sqlite_limit_def)

lemma Math_min_minus_one: "Math_min (Fin (- 1)) (Fin 200) = Fin (- 1)"
  by (simp add: Math_min_def)

lemma length_order_by: "length (order_by_created_at_desc rows) = length rows"
  by (simp add: order_by_created_at_desc_def)

lemma sorted_order_by: "sorted (rev (map created_at (order_by_created_at_desc rows)))"
  by (simp add: order_by_created_at_desc_def rev_map [symmetric])

text \<open>
  Claim C6 at the request \<^verbatim>\<open>GET /api/observations?limit=-1\<close>. \<^verbatim>\<open>Number\<close> gives \<open>-1\<close>,
  \<^verbatim>\<open>Math.min(-1, 200)\<close> is \<open>-1\<close>, and a negative \<^verbatim>\<open>LIMIT\<close> bounds nothing: the
  listing returns every row of the table, newest first, 201 records for a table of 201
  rows. (\<open>listing_capped\<close> below: for an absent limit and for every limit that is not
  negative, at most 200 records are returned.)
\<close>

theorem negative_limit_lists_every_record:
  "get_observations R (Some (Fin (- 1))) rows =
     Json 200 (Obj [(''ok'', Bool True),
       (''observations'', Arr (map (observation_out R) (order_by_created_at_desc rows)))]) \<and>
   length (observations_of (get_observations R (Some (Fin (- 1))) rows)) = length rows \<and>
   length (observations_of (get_observations R (Some (Fin (- 1)))
             (map (\<lambda>i. r\<lparr>row_id := show_nat i\<rparr>) [0..<201]))) = 201"
proof -
  have "get_observations R (Some (Fin (- 1))) rows' =
     Json 200 (Obj [(''ok'', Bool True),
       (''observations'', Arr (map (observation_out R) (order_by_created_at_desc rows')))])"
    for rows'
    by (simp add: get_observations_def Math_min_minus_one sqlite_limit_minus_one)
  then show ?thesis
    by (simp add: observations_of_listing length_order_by)
qed

lemma sqlite_limit_bound:
  "sqlite_limit (Fin q) rows = Inr sel \<Longrightarrow> 0 \<le> q \<Longrightarrow> q \<le> 200 \<Longrightarrow> length sel \<le> 200"
proof -
  assume a: "sqlite_limit (Fin q) rows = Inr sel" and q: "0 \<le> q" "q \<le> 200"
  then have i: "q = of_int \<lfloor>q\<rfloor>" and s: "sel = take (nat \<lfloor>q\<rfloor>) rows"
    by (auto simp: sqlite_limit_def split: if_splits)
  from floor_mono [OF q(2)] have "\<lfloor>q\<rfloor> \<le> 200"
    by simp
  from nat_mono [OF this] have "nat \<lfloor>q\<rfloor> \<le> 200"
    by simp
  with s show ?thesis
    by simp
qed

lemma listing_capped:
  assumes "case requested of Some (Fin q) \<Rightarrow> 0 \<le> q | _ \<Rightarrow> True"
  shows "length (observations_of (get_observations R requested rows)) \<le> 200"
proof -
  let ?n = "case requested of None \<Rightarrow> Fin 50 | Some n \<Rightarrow> n"
  let ?l = "Math_min ?n (Fin 200)"
  show ?thesis
  proof (cases "sqlite_limit ?l (order_by_created_at_desc rows)")
    case (Inl u)
    then show ?thesis
      by (simp add: get_observations_def observations_of_Threw)
  next
    case (Inr sel)
    then obtain q where l: "?l = Fin q"
      by (cases ?l) (auto simp: sqlite_limit_def)
    have "0 \<le> q \<and> q \<le> 200"
    proof (cases requested)
      case None
      with l show ?thesis
        by (auto simp: Math_min_def split: if_splits)
    next
      case (Some n)
      with l assms show ?thesis
        by (cases n) (auto simp: Math_min_def split: if_splits)
    qed
    with Inr l have "length sel \<le> 200"
      using sqlite_limit_bound [of q "order_by_created_at_desc rows" sel] by simp
    with Inr show ?thesis
      by (simp add: get_observations_def observations_of_listing)
  qed
qed

section \<open>Properties of the canonical form\<close>

lemma object_text_skips_None:
  "object_text (xs @ (k, None) # ys) = object_text (xs @ ys)"
  by (simp add: object_text_def)

lemma stringify_object_skips_undefined:
  "JSON_stringify_object R (ps @ (k, Undefined) # qs) = JSON_stringify_object R (ps @ qs)"
  by (simp add: JSON_stringify_object_def object_text_skips_None)

lemma serialize_skips_undefined:
  "SerializeJSONProperty nts (Obj (ps @ (k, Undefined) # qs)) =
   SerializeJSONProperty nts (Obj (ps @ qs))"
  by (simp add: object_text_skips_None)

lemma serialize_feature_undefined_confidence:
  "SerializeJSONProperty nts (Obj [(''type'', Str t), (''confidence'', Undefined)]) =
   SerializeJSONProperty nts (Obj [(''type'', Str t)])"
  using serialize_skips_undefined [of nts "[(''type'', Str t)]" "''confidence''" "[]"]
  by simp

lemma canonical_client_undefined_confidence:
  "canonical_client R la lo ts (fs1 @ Obj [(''type'', Str t), (''confidence'', Undefined)] # fs2) =
   canonical_client R la lo ts (fs1 @ Obj [(''type'', Str t)] # fs2)"
  by (simp add: canonical_client_def JSON_stringify_object_def object_text_def
        serialize_feature_undefined_confidence [simplified])

lemma FeatureSchema_type_only:
  "FeatureSchema p (Obj [(''type'', Str t)]) = Inr \<lparr>type = t, confidence = None, bbox = None\<rparr>"
  by (simp add: FeatureSchema_def get_def z_string_def z_confidence_def z_bbox_def)

lemma FeatureSchema_undefined_confidence:
  "FeatureSchema p (Obj [(''type'', Str t), (''confidence'', Undefined)]) =
     Inr \<lparr>type = t, confidence = None, bbox = None\<rparr>"
  by (simp add: FeatureSchema_def get_def z_string_def z_confidence_def z_bbox_def)

lemma serialize_Feature_js:
  "SerializeJSONProperty nts (Feature_js f) =
     Some (''{'' @ QuoteJSONString ''type'' @ '':'' @ QuoteJSONString (type f) @
           (case confidence f of
              None \<Rightarrow> []
            | Some c \<Rightarrow> '','' @ QuoteJSONString ''confidence'' @ '':'' @
                        (case c of Fin q \<Rightarrow> nts q | _ \<Rightarrow> ''null'')) @
           (case bbox f of
              None \<Rightarrow> []
            | Some (a, b, c, d) \<Rightarrow> '','' @ QuoteJSONString ''bbox'' @ '':'' @
                array_text [SerializeJSONProperty nts (Num a), SerializeJSONProperty nts (Num b),
                            SerializeJSONProperty nts (Num c), SerializeJSONProperty nts (Num d)]) @
           ''}'')"
  by (cases "confidence f"; cases "bbox f")
     (auto simp: Feature_js_def object_text_def)

text \<open>
  Claim C7. The JSON text of a parsed feature is \<^verbatim>\<open>type\<close> followed by exactly the
  optional fields that are present, with no marker for an absent one. An object
  property whose value is \<^verbatim>\<open>undefined\<close> is left out of the text, so a feature with
  \<^verbatim>\<open>confidence\<close> omitted and the same feature with \<^verbatim>\<open>confidence: undefined\<close> have the
  same text, the same canonical form in any list of features, and the same digest; the
  schema parses both to the same feature. (The spec's \<^verbatim>\<open>kind\<close> is the field \<^verbatim>\<open>type\<close> of
  the code.)
\<close>

theorem absent_optional_fields_are_omitted:
  "SerializeJSONProperty nts (Feature_js f) =
     Some (''{'' @ QuoteJSONString ''type'' @ '':'' @ QuoteJSONString (type f) @
           (case confidence f of
              None \<Rightarrow> []
            | Some c \<Rightarrow> '','' @ QuoteJSONString ''confidence'' @ '':'' @
                        (case c of Fin q \<Rightarrow> nts q | _ \<Rightarrow> ''null'')) @
           (case bbox f of
              None \<Rightarrow> []
            | Some (a, b, c, d) \<Rightarrow> '','' @ QuoteJSONString ''bbox'' @ '':'' @
                array_text [SerializeJSONProperty nts (Num a), SerializeJSONProperty nts (Num b),
                            SerializeJSONProperty nts (Num c), SerializeJSONProperty nts (Num d)]) @
           ''}'') \<and>
   JSON_stringify_object R (ps @ (k, Undefined) # qs) = JSON_stringify_object R (ps @ qs) \<and>
   SerializeJSONProperty nts (Obj [(''type'', Str t), (''confidence'', Undefined)]) =
     SerializeJSONProperty nts (Obj [(''type'', Str t)]) \<and>
   SerializeJSONProperty nts (Obj [(''type'', Str t)]) =
     Some (''{'' @ QuoteJSONString ''type'' @ '':'' @ QuoteJSONString t @ ''}'') \<and>
   canonical_client R la lo ts (fs1 @ Obj [(''type'', Str t), (''confidence'', Undefined)] # fs2) =
     canonical_client R la lo ts (fs1 @ Obj [(''type'', Str t)] # fs2) \<and>
   sha256Hex_client R
       (canonical_client R la lo ts (fs1 @ Obj [(''type'', Str t), (''confidence'', Undefined)] # fs2)) =
     sha256Hex_client R (canonical_client R la lo ts (fs1 @ Obj [(''type'', Str t)] # fs2)) \<and>
   FeatureSchema p (Obj [(''type'', Str t), (''confidence'', Undefined)]) =
     FeatureSchema p (Obj [(''type'', Str t)]) \<and>
   FeatureSchema p (Obj [(''type'', Str t)]) =
     Inr \<lparr>type = t, confidence = None, bbox = None\<rparr>"
proof -
  have one: "SerializeJSONProperty nts (Obj [(''type'', Str t)]) =
     Some (''{'' @ QuoteJSONString ''type'' @ '':'' @ QuoteJSONString t @ ''}'')"
    by (simp add: object_text_def)
  show ?thesis
    by (simp only: serialize_Feature_js stringify_object_skips_undefined
          serialize_feature_undefined_confidence one canonical_client_undefined_confidence
          FeatureSchema_undefined_confidence FeatureSchema_type_only simp_thms)
qed

text \<open>
  The round trip of a submission: when the schema accepts the body the form has sent, the
  canonical form the server recomputes from the parsed data is the client's, and a
  submission carrying the client's digest of it is accepted.
\<close>

lemma wire_Num_cases: "wire (Num n) = Num m \<Longrightarrow> n = m \<and> (\<exists>q. m = Fin q)"
  by (cases n) auto

lemma wire_Num_not_Undefined: "wire (Num n) \<noteq> Undefined"
  by (cases n) auto

lemma wire_form_feature_not_Undefined: "wire (form_feature f) \<noteq> Undefined"
  by (simp add: form_feature_def)

lemma FeatureSchema_wire_form_feature:
  assumes "FeatureSchema p (wire (form_feature f)) = Inr F"
  shows "SerializeJSONProperty nts (Feature_js F) = SerializeJSONProperty nts (form_feature f)"
proof (cases "snd f")
  case None
  then have w: "wire (form_feature f) = Obj [(''type'', Str (fst f))]"
    by (simp add: form_feature_def)
  from assms have "F = \<lparr>type = fst f, confidence = None, bbox = None\<rparr>"
    unfolding w FeatureSchema_type_only by simp
  with None show ?thesis
    by (simp add: Feature_js_def form_feature_def object_text_def)
next
  case (Some n)
  show ?thesis
  proof (cases n)
    case (Fin q)
    with Some have w: "wire (form_feature f) =
        Obj [(''type'', Str (fst f)), (''confidence'', Num (Fin q))]"
      by (simp add: form_feature_def)
    from assms have "F = \<lparr>type = fst f, confidence = Some (Fin q), bbox = None\<rparr>"
      unfolding w
      by (auto simp: FeatureSchema_def get_def z_string_def z_confidence_def z_number_def
            z_bbox_def Let_def split: if_splits)
    with Some Fin show ?thesis
      by (simp add: Feature_js_def form_feature_def)
  next
    case NaN
    with Some have w: "wire (form_feature f) =
        Obj [(''type'', Str (fst f)), (''confidence'', Null)]"
      by (simp add: form_feature_def)
    from assms show ?thesis
      unfolding w
      by (simp add: FeatureSchema_def get_def z_string_def z_confidence_def z_number_def
            z_bbox_def)
  next
    case PosInf
    with Some have w: "wire (form_feature f) =
        Obj [(''type'', Str (fst f)), (''confidence'', Null)]"
      by (simp add: form_feature_def)
    from assms show ?thesis
      unfolding w
      by (simp add: FeatureSchema_def get_def z_string_def z_confidence_def z_number_def
            z_bbox_def)
  next
    case NegInf
    with Some have w: "wire (form_feature f) =
        Obj [(''type'', Str (fst f)), (''confidence'', Null)]"
      by (simp add: form_feature_def)
    from assms show ?thesis
      unfolding w
      by (simp add: FeatureSchema_def get_def z_string_def z_confidence_def z_number_def
            z_bbox_def)
  qed
qed

lemma z_array_items_Inr_Cons:
  "z_array_items p i (x # xs) = Inr Fs \<Longrightarrow>
   \<exists>F Fs'. Fs = F # Fs' \<and> FeatureSchema (p @ [Index i]) x = Inr F \<and>
           z_array_items p (Suc i) xs = Inr Fs'"
  by (auto split: sum.splits)

lemma z_array_items_wire_form:
  "z_array_items p i (map (\<lambda>w. if w = Undefined then Null else w) (map wire (map form_feature cf))) =
     Inr Fs \<Longrightarrow>
   map (SerializeJSONProperty nts) (map Feature_js Fs) =
   map (SerializeJSONProperty nts) (map form_feature cf)"
proof (induction cf arbitrary: i Fs)
  case Nil
  then show ?case by simp
next
  case (Cons f cf)
  from Cons.prems have "z_array_items p i
      (wire (form_feature f) #
       map (\<lambda>w. if w = Undefined then Null else w) (map wire (map form_feature cf))) = Inr Fs"
    by (simp add: wire_form_feature_not_Undefined)
  from z_array_items_Inr_Cons [OF this] obtain F Fs' where
    fs: "Fs = F # Fs'"
    and one: "FeatureSchema (p @ [Index i]) (wire (form_feature f)) = Inr F"
    and rest: "z_array_items p (Suc i)
      (map (\<lambda>w. if w = Undefined then Null else w) (map wire (map form_feature cf))) = Inr Fs'"
    by blast
  from FeatureSchema_wire_form_feature [OF one]
  have "SerializeJSONProperty nts (Feature_js F) = SerializeJSONProperty nts (form_feature f)" .
  moreover from Cons.IH [OF rest]
  have "map (SerializeJSONProperty nts) (map Feature_js Fs') =
        map (SerializeJSONProperty nts) (map form_feature cf)" .
  ultimately show ?case
    by (simp add: fs)
qed

lemma submitted_body_props:
  "submitted_body la lo ts fs h =
     Obj [(''lat'', wire (Num la)), (''lng'', wire (Num lo)), (''timestamp'', Str ts),
          (''features'', Arr (map (\<lambda>w. if w = Undefined then Null else w) (map wire fs))),
          (''hashHex'', Str h)]"
  by (simp add: submitted_body_def split: jsnum.splits)

lemma server_recomputes_client_canonical:
  assumes n: "number_to_string B = number_to_string N"
    and ok: "ObservationSchema_safeParse
               (submitted_body la lo ts (map form_feature cf) h) = Inr d"
  shows "canonical N d = canonical_client B la lo ts (map form_feature cf) \<and> hashHex d = h"
proof -
  let ?fs = "map (\<lambda>w. if w = Undefined then Null else w) (map wire (map form_feature cf))"
  from safeParse_Inr_props [OF ok] obtain props where
    b: "submitted_body la lo ts (map form_feature cf) h = Obj props"
    and p: "get props ''lat'' = Num (lat d)" "get props ''lng'' = Num (lng d)"
      "get props ''timestamp'' = Str (timestamp d)"
      "z_features [Key ''features''] (get props ''features'') = Inr (features d)"
      "get props ''hashHex'' = Str (hashHex d)"
    by blast
  from b have props: "props =
     [(''lat'', wire (Num la)), (''lng'', wire (Num lo)), (''timestamp'', Str ts),
      (''features'', Arr ?fs), (''hashHex'', Str h)]"
    by (simp add: submitted_body_props)
  from p(1) have "wire (Num la) = Num (lat d)"
    by (simp add: props get_def)
  then have la: "la = lat d"
    by (cases la) simp_all
  from p(2) have "wire (Num lo) = Num (lng d)"
    by (simp add: props get_def)
  then have lo: "lo = lng d"
    by (cases lo) simp_all
  from p(3) have ts: "ts = timestamp d"
    by (simp add: props get_def)
  from p(5) have h: "hashHex d = h"
    by (simp add: props get_def)
  from p(4) have "z_array_items [Key ''features''] 0 ?fs = Inr (features d)"
    by (simp add: props get_def z_features_def)
  from z_array_items_wire_form [OF this]
  have "map (SerializeJSONProperty (number_to_string N)) (map Feature_js (features d)) =
        map (SerializeJSONProperty (number_to_string N)) (map form_feature cf)" .
  then have "canonical N d = canonical_client B la lo ts (map form_feature cf)"
    by (simp add: canonical_def canonical_client_def JSON_stringify_object_def n la lo ts)
  with h show ?thesis
    by simp
qed

lemma honest_submission_accepted:
  assumes "number_to_string B = number_to_string N" and "utf8_encode B = utf8_encode N"
    and "sha256 B = sha256 N"
    and h: "h = sha256Hex_client B (canonical_client B la lo ts (map form_feature cf))"
    and ok: "ObservationSchema_safeParse
               (submitted_body la lo ts (map form_feature cf) h) = Inr d"
    and fresh: "uuid \<notin> set (map row_id rows)"
  shows "fst (post_observations N uuid now
                (submitted_body la lo ts (map form_feature cf) h) rows) =
         Json 200 (Obj [(''ok'', Bool True), (''id'', Str uuid), (''createdAt'', Str now),
                        (''hashHex'', Str h)])"
proof -
  from server_recomputes_client_canonical [OF assms(1) ok]
  have c: "canonical N d = canonical_client B la lo ts (map form_feature cf)"
    and hd: "hashHex d = h"
    by simp_all
  have "sha256Hex N (canonical N d) = h"
    by (simp add: c h sha256Hex_client_eq sha256Hex_def assms(2,3))
  then have "toLowerCase (sha256Hex N (canonical N d)) = toLowerCase (hashHex d)"
    by (simp add: hd)
  from post_accept [OF ok this fresh] show ?thesis
    by (simp add: hd)
qed



end
